theory Spec2Isabelle
  imports Main "HOL-Library.AList"
begin

section \<open>Data model\<close>

text \<open>
  A string is the list of the bytes of its UTF-8 encoding. A collection is the list of
  its documents in natural (insertion) order, each paired with its \<open>_id\<close>, which is the
  string \<open>String(_id)\<close> of the document's ObjectId. A string that a request hands to
  Mongoose as an \<open>_id\<close> is cast to an ObjectId first: \<open>canonical\<close> below gives the
  \<open>String\<close> of that ObjectId, so that two spellings of one ObjectId meet the same
  document. The \<open>assignedUser\<close> of a task and the \<open>pendingTasks\<close> of a user hold
  the strings that the routes write there, and the routes compare them as strings.

  The schema files \<open>models/task.js\<close> and \<open>models/user.js\<close> are not part of the
  sources, so the fields are the ones the routes read and write, and schema validation is
  a parameter (\<open>taskSchemaValid\<close>, \<open>userSchemaValid\<close> below).
\<close>

type_synonym oid = string

record task =
  task_name :: "string option"
  description :: string
  deadline :: "string option"
  completed :: bool
  assignedUser :: string
  assignedUserName :: string
  task_dateCreated :: nat

record user =
  user_name :: string
  email :: string
  pendingTasks :: "oid list"
  user_dateCreated :: nat

record db =
  users :: "(oid \<times> user) list"
  tasks :: "(oid \<times> task) list"

text \<open>
  Request bodies. A field is \<open>None\<close> when the body does not have it (\<open>undefined\<close>);
  string fields that are present are strings (other JSON values are outside this model).
  \<open>b_assignedUserName\<close> is what a client may send as \<open>assignedUserName\<close>.
\<close>

record task_body =
  b_name :: "string option"
  b_description :: "string option"
  b_deadline :: "string option"
  b_completed :: "bool option"
  b_assignedUser :: "string option"
  b_assignedUserName :: "string option"

record user_body =
  ub_name :: "string option"
  ub_email :: "string option"
  ub_pendingTasks :: "string list option"

section \<open>Errors, responses, environment\<close>

text \<open>
  The values a handler's \<open>catch\<close> distinguishes: an \<open>Error\<close> the route made itself with
  \<open>err.status = 400\<close> and a message; Mongoose's \<open>CastError\<close> on path \<open>_id\<close>;
  Mongoose's \<open>ValidationError\<close>; a rejection by the store with its \<open>code\<close> and message
  (code 11000 is the duplicate key error); a \<open>TypeError\<close> of the runtime.
\<close>

datatype err =
    Status400 string
  | CastError_id
  | ValidationError
  | MongoError nat string
  | TypeError

datatype data =
    EmptyObject
  | Count nat
  | TaskDoc oid task
  | UserDoc oid user
  | TaskDocs "(oid \<times> task) list"
  | UserDocs "(oid \<times> user) list"
  | ErrObject err

text \<open>
  \<open>Json s m d\<close> is \<open>res.status(s).json({message: m, data: d})\<close>;
  \<open>Send s\<close> is \<open>res.status(s).send()\<close>, a response without a body.
\<close>

datatype response = Json nat string data | Send nat

text \<open>
  Every awaited call to the store is named by the file and the line of the source where
  it stands.
\<close>

datatype store_call = TasksJs nat | UsersJs nat

text \<open>
  What the routes take from outside the sources:
  \<open>isValidObjectId\<close> is \<open>mongoose.Types.ObjectId.isValid\<close>, which is also the test
  Mongoose applies when it casts an \<open>_id\<close>;
  \<open>canonical s\<close> is \<open>String(new ObjectId(s))\<close>, the string of the ObjectId that a
  valid \<open>s\<close> is cast to;
  \<open>taskSchemaValid\<close> and \<open>userSchemaValid\<close> are the validation that \<open>save\<close> runs;
  \<open>rejects c\<close> is \<open>Some (code, message)\<close> when the store rejects the call \<open>c\<close>.
\<close>

record env =
  isValidObjectId :: "string \<Rightarrow> bool"
  canonical :: "string \<Rightarrow> oid"
  taskSchemaValid :: "task \<Rightarrow> bool"
  userSchemaValid :: "user \<Rightarrow> bool"
  rejects :: "store_call \<Rightarrow> (nat \<times> string) option"

definition bind_err :: "err + 'a \<Rightarrow> ('a \<Rightarrow> err + 'b) \<Rightarrow> err + 'b" where
  "bind_err m f = (case m of Inl x \<Rightarrow> Inl x | Inr a \<Rightarrow> f a)"

section \<open>Strings\<close>

text \<open>
  The white space that \<open>trim\<close> and \<open>parseInt\<close> skip (the WhiteSpace and LineTerminator
  code points of ECMAScript), each as its UTF-8 bytes: U+0009 to U+000D, U+0020, U+00A0,
  U+1680, U+2000 to U+200A, U+2028, U+2029, U+202F, U+205F, U+3000 and U+FEFF.
\<close>

definition whiteSpaces :: "string list" where
  "whiteSpaces =
     [[CHR 0x09], [CHR 0x0A], [CHR 0x0B], [CHR 0x0C], [CHR 0x0D], [CHR 0x20],
      [CHR 0xC2, CHR 0xA0],
      [CHR 0xE1, CHR 0x9A, CHR 0x80],
      [CHR 0xE2, CHR 0x80, CHR 0x80], [CHR 0xE2, CHR 0x80, CHR 0x81],
      [CHR 0xE2, CHR 0x80, CHR 0x82], [CHR 0xE2, CHR 0x80, CHR 0x83],
      [CHR 0xE2, CHR 0x80, CHR 0x84], [CHR 0xE2, CHR 0x80, CHR 0x85],
      [CHR 0xE2, CHR 0x80, CHR 0x86], [CHR 0xE2, CHR 0x80, CHR 0x87],
      [CHR 0xE2, CHR 0x80, CHR 0x88], [CHR 0xE2, CHR 0x80, CHR 0x89],
      [CHR 0xE2, CHR 0x80, CHR 0x8A],
      [CHR 0xE2, CHR 0x80, CHR 0xA8], [CHR 0xE2, CHR 0x80, CHR 0xA9],
      [CHR 0xE2, CHR 0x80, CHR 0xAF],
      [CHR 0xE2, CHR 0x81, CHR 0x9F],
      [CHR 0xE3, CHR 0x80, CHR 0x80],
      [CHR 0xEF, CHR 0xBB, CHR 0xBF]]"

text \<open>The length of the white space that \<open>s\<close> starts with, 0 when it starts with none.\<close>

definition wsLength :: "string list \<Rightarrow> string \<Rightarrow> nat" where
  "wsLength ws s =
     (case find (\<lambda>w. w \<noteq> [] \<and> take (length w) s = w) ws of None \<Rightarrow> 0 | Some w \<Rightarrow> length w)"

function dropWhiteSpace :: "string list \<Rightarrow> string \<Rightarrow> string" where
  "dropWhiteSpace ws s =
     (if wsLength ws s = 0 then s else dropWhiteSpace ws (drop (wsLength ws s) s))"
  by pat_completeness auto
termination
proof (relation "measure (\<lambda>(ws, s). length s)")
  show "wf (measure (\<lambda>(ws, s). length s))" by simp
next
  fix ws :: "string list" and s :: string
  assume a: "wsLength ws s \<noteq> 0"
  then obtain w where "w \<noteq> []" "take (length w) s = w"
    by (auto simp: wsLength_def find_Some_iff split: option.splits)
  then have "s \<noteq> []" by auto
  with a show "((ws, drop (wsLength ws s) s), (ws, s)) \<in> measure (\<lambda>(ws, s). length s)"
    by simp
qed

declare dropWhiteSpace.simps [simp del]

text \<open>
  \<open>String.prototype.trim\<close>. At the end of the string the bytes of a white space code
  point are met in reverse.
\<close>

definition trim :: "string \<Rightarrow> string" where
  "trim s = rev (dropWhiteSpace (map rev whiteSpaces) (rev (dropWhiteSpace whiteSpaces s)))"

definition digitVal :: "char \<Rightarrow> nat option" where
  "digitVal = map_of (zip ''0123456789'' [0, 1, 2, 3, 4, 5, 6, 7, 8, 9])"

text \<open>
  \<open>parseInt(s, 10)\<close>: leading white space, an optional sign, then the longest run of
  decimal digits; \<open>None\<close> is \<open>NaN\<close>. The value is the mathematical integer (the loss of
  precision of a double beyond \<open>2^53\<close> is not modelled).
\<close>

definition parseInt :: "string \<Rightarrow> int option" where
  "parseInt s =
     (let t = dropWhiteSpace whiteSpaces s;
          neg = (case t of [] \<Rightarrow> False | c # _ \<Rightarrow> c = CHR ''-'');
          r = (case t of [] \<Rightarrow> [] | c # cs \<Rightarrow> if c = CHR ''-'' \<or> c = CHR ''+'' then cs else t);
          ds = takeWhile (\<lambda>c. digitVal c \<noteq> None) r;
          n = int (foldl (\<lambda>a c. 10 * a + the (digitVal c)) 0 ds)
      in if ds = [] then None else Some (if neg then - n else n))"

section \<open>Store operations\<close>

text \<open>\<open>$addToSet\<close> and \<open>$pull\<close> on an array field.\<close>

definition addToSet :: "'a \<Rightarrow> 'a list \<Rightarrow> 'a list" where
  "addToSet x xs = (if x \<in> set xs then xs else xs @ [x])"

definition pull :: "'a \<Rightarrow> 'a list \<Rightarrow> 'a list" where
  "pull x xs = filter (\<lambda>y. y \<noteq> x) xs"

definition add_pending :: "oid \<Rightarrow> user \<Rightarrow> user" where
  "add_pending t u = u\<lparr>pendingTasks := addToSet t (pendingTasks u)\<rparr>"

definition pull_pending :: "oid \<Rightarrow> user \<Rightarrow> user" where
  "pull_pending t u = u\<lparr>pendingTasks := pull t (pendingTasks u)\<rparr>"

definition awaited :: "env \<Rightarrow> store_call \<Rightarrow> 'a \<Rightarrow> err + 'a" where
  "awaited e c r = (case rejects e c of Some (code, msg) \<Rightarrow> Inl (MongoError code msg) | None \<Rightarrow> Inr r)"

text \<open>
  \<open>Model.findById(id)\<close>: the id is cast first, then the first document with that
  ObjectId is read; its \<open>_id\<close> is \<open>canonical e i\<close>.
\<close>

definition findById :: "env \<Rightarrow> store_call \<Rightarrow> (oid \<times> 'a) list \<Rightarrow> string \<Rightarrow> err + 'a option" where
  "findById e c coll i =
     (if \<not> isValidObjectId e i then Inl CastError_id
      else awaited e c (map_of coll (canonical e i)))"

text \<open>
  \<open>User.findByIdAndUpdate(id, update)\<close>: updates the first user with that id, and does
  nothing when there is none. The routes call it with the \<open>String(_id)\<close> of a user
  they have read, or with the \<open>assignedUser\<close> of a stored task, which every route
  writes from such a \<open>String(_id)\<close>: the id is the \<open>_id\<close> of the user as it stands.
\<close>

definition findByIdAndUpdate :: "env \<Rightarrow> store_call \<Rightarrow> string \<Rightarrow> (user \<Rightarrow> user) \<Rightarrow> db \<Rightarrow> err + db" where
  "findByIdAndUpdate e c i f d =
     (if \<not> isValidObjectId e i then Inl CastError_id
      else awaited e c (d\<lparr>users := AList.map_entry i f (users d)\<rparr>))"

text \<open>
  \<open>doc.save()\<close> validates against the schema, then writes: a new document is inserted at
  the end of the collection (the store refuses an \<open>_id\<close> that is taken), a document that
  was read from the store replaces the stored one.
\<close>

definition insert_task :: "env \<Rightarrow> store_call \<Rightarrow> oid \<Rightarrow> task \<Rightarrow> db \<Rightarrow> err + db" where
  "insert_task e c i t d =
     (if \<not> taskSchemaValid e t then Inl ValidationError
      else if map_of (tasks d) i \<noteq> None then Inl (MongoError 11000 ''duplicate key'')
      else awaited e c (d\<lparr>tasks := tasks d @ [(i, t)]\<rparr>))"

definition save_task :: "env \<Rightarrow> store_call \<Rightarrow> oid \<Rightarrow> task \<Rightarrow> db \<Rightarrow> err + db" where
  "save_task e c i t d =
     (if \<not> taskSchemaValid e t then Inl ValidationError
      else awaited e c (d\<lparr>tasks := AList.map_entry i (\<lambda>_. t) (tasks d)\<rparr>))"

definition insert_user :: "env \<Rightarrow> store_call \<Rightarrow> oid \<Rightarrow> user \<Rightarrow> db \<Rightarrow> err + db" where
  "insert_user e c i u d =
     (if \<not> userSchemaValid e u then Inl ValidationError
      else if map_of (users d) i \<noteq> None then Inl (MongoError 11000 ''duplicate key'')
      else awaited e c (d\<lparr>users := users d @ [(i, u)]\<rparr>))"

definition save_user :: "env \<Rightarrow> store_call \<Rightarrow> oid \<Rightarrow> user \<Rightarrow> db \<Rightarrow> err + db" where
  "save_user e c i u d =
     (if \<not> userSchemaValid e u then Inl ValidationError
      else awaited e c (d\<lparr>users := AList.map_entry i (\<lambda>_. u) (users d)\<rparr>))"

text \<open>\<open>Model.deleteOne({_id: id})\<close> removes the first document with that id.\<close>

definition deleteOne_task :: "env \<Rightarrow> store_call \<Rightarrow> oid \<Rightarrow> db \<Rightarrow> err + db" where
  "deleteOne_task e c i d = awaited e c (d\<lparr>tasks := AList.delete_aux i (tasks d)\<rparr>)"

definition deleteOne_user :: "env \<Rightarrow> store_call \<Rightarrow> oid \<Rightarrow> db \<Rightarrow> err + db" where
  "deleteOne_user e c i d = awaited e c (d\<lparr>users := AList.delete_aux i (users d)\<rparr>)"

text \<open>
  \<open>Task.updateMany(filter, {$set: ...})\<close>. \<open>ids\<close> are the strings that the filter has
  under \<open>_id: {$in: ...}\<close>, \<open>None\<close> when it has no such condition; Mongoose casts them
  to ObjectIds before it sends the update, so a task is selected when its \<open>_id\<close> is the
  ObjectId of one of them. \<open>q\<close> is the rest of the filter and \<open>f\<close> the update.
\<close>

definition selected :: "env \<Rightarrow> string list option \<Rightarrow> oid \<Rightarrow> bool" where
  "selected e ids k = (case ids of None \<Rightarrow> True | Some xs \<Rightarrow> k \<in> set (map (canonical e) xs))"

definition updateMany_tasks ::
  "env \<Rightarrow> store_call \<Rightarrow> string list option \<Rightarrow> (task \<Rightarrow> bool) \<Rightarrow> (task \<Rightarrow> task) \<Rightarrow> db \<Rightarrow> err + db" where
  "updateMany_tasks e c ids q f d =
     (if \<not> list_all (isValidObjectId e) (case ids of None \<Rightarrow> [] | Some xs \<Rightarrow> xs) then Inl CastError_id
      else awaited e c
             (d\<lparr>tasks := AList.map_ran (\<lambda>k t. if selected e ids k \<and> q t then f t else t) (tasks d)\<rparr>))"

text \<open>
  \<open>session.withTransaction(body)\<close>: the writes of \<open>body\<close> are kept when it returns and
  dropped when it throws.
\<close>

definition withTransaction :: "(db \<Rightarrow> err + ('a \<times> db)) \<Rightarrow> db \<Rightarrow> (err + 'a) \<times> db" where
  "withTransaction body d = (case body d of Inl x \<Rightarrow> (Inl x, d) | Inr (r, d') \<Rightarrow> (Inr r, d'))"

section \<open>routes/tasks.js\<close>

text \<open>
  \<open>ensureUserExists\<close> (lines 26 to 41). The user is read with \<open>select({name: 1})\<close>: what
  comes back is the \<open>_id\<close> and the name of the user in the store.
\<close>

definition ensureUserExists :: "env \<Rightarrow> db \<Rightarrow> string option \<Rightarrow> err + (oid \<times> string) option" where
  "ensureUserExists e d userId =
     (case userId of
        None \<Rightarrow> Inr None
      | Some str \<Rightarrow>
          if str = [] then Inr None
          else if \<not> isValidObjectId e str then Inl (Status400 ''assignedUser must be a valid ObjectId'')
          else bind_err (findById e (TasksJs 34) (users d) str)
                 (\<lambda>u. case u of
                        None \<Rightarrow> Inl (Status400 ''assignedUser not found'')
                      | Some u \<Rightarrow> Inr (Some (canonical e str, user_name u))))"

text \<open>
  Lines 93 to 100 of POST and 169 to 175 of PUT: the assignee and the assignee's name that
  the task will carry.
\<close>

definition resolve_assignee :: "env \<Rightarrow> db \<Rightarrow> string option \<Rightarrow> err + (string \<times> string)" where
  "resolve_assignee e d a =
     (if (case a of None \<Rightarrow> False | Some s \<Rightarrow> s \<noteq> [] \<and> trim s \<noteq> [])
      then bind_err (ensureUserExists e d a)
             (\<lambda>r. case r of None \<Rightarrow> Inl TypeError | Some (uid, nm) \<Rightarrow> Inr (uid, nm))
      else Inr ([], ''unassigned''))"

definition or_empty :: "string option \<Rightarrow> string" where
  "or_empty s = (case s of None \<Rightarrow> [] | Some v \<Rightarrow> v)"

definition truthy_bool :: "bool option \<Rightarrow> bool" where
  "truthy_bool b = (case b of None \<Rightarrow> False | Some v \<Rightarrow> v)"

subsection \<open>POST /api/tasks\<close>

text \<open>\<open>newId\<close> is the \<open>_id\<close> the store gives the new task, \<open>now\<close> is \<open>new Date()\<close>.\<close>

definition tasks_post_txn :: "env \<Rightarrow> oid \<Rightarrow> nat \<Rightarrow> task_body \<Rightarrow> db \<Rightarrow> err + ((oid \<times> task) \<times> db)" where
  "tasks_post_txn e newId now body d =
     bind_err (resolve_assignee e d (b_assignedUser body))
       (\<lambda>(au, aun).
          let t = \<lparr>task_name = b_name body,
                   description = or_empty (b_description body),
                   deadline = b_deadline body,
                   completed = truthy_bool (b_completed body),
                   assignedUser = au,
                   assignedUserName = aun,
                   task_dateCreated = now\<rparr>
          in bind_err (insert_task e (TasksJs 112) newId t d)
               (\<lambda>d1. bind_err (if assignedUser t \<noteq> [] \<and> \<not> completed t
                                then findByIdAndUpdate e (TasksJs 116) (assignedUser t) (add_pending newId) d1
                                else Inr d1)
                  (\<lambda>d2. Inr ((newId, t), d2))))"

definition tasks_post :: "env \<Rightarrow> oid \<Rightarrow> nat \<Rightarrow> task_body \<Rightarrow> db \<Rightarrow> response \<times> db" where
  "tasks_post e newId now body d =
     (case withTransaction (tasks_post_txn e newId now body) d of
        (Inr (i, t), d') \<Rightarrow> (Json 201 ''Task created successfully'' (TaskDoc i t), d')
      | (Inl (Status400 m), d') \<Rightarrow> (Json 400 m EmptyObject, d')
      | (Inl ValidationError, d') \<Rightarrow>
          (Json 400 ''Invalid task data: name and deadline are required'' EmptyObject, d')
      | (Inl _, d') \<Rightarrow> (Json 500 ''Error creating task'' EmptyObject, d'))"

subsection \<open>PUT /api/tasks/:id\<close>

text \<open>
  When the task is not found the body of the transaction sends the 404 response itself
  and returns; the response the client gets is that first one. \<open>taskId\<close> is the
  \<open>_id\<close> of the task that was read.
\<close>

datatype put_outcome = NotFoundSent | Updated oid task

definition task_put_txn :: "env \<Rightarrow> string \<Rightarrow> task_body \<Rightarrow> db \<Rightarrow> err + (put_outcome \<times> db)" where
  "task_put_txn e i body d =
     bind_err (findById e (TasksJs 163) (tasks d) i)
       (\<lambda>found. case found of
          None \<Rightarrow> Inr (NotFoundSent, d)
        | Some t0 \<Rightarrow>
            bind_err (resolve_assignee e d (b_assignedUser body))
              (\<lambda>(nextAssignedUser, nextAssignedUserName).
                 let taskId = canonical e i;
                     prevAssigned = assignedUser t0;
                     prevCompleted = completed t0;
                     t = t0\<lparr>task_name := b_name body,
                            description := or_empty (b_description body),
                            deadline := b_deadline body,
                            completed := truthy_bool (b_completed body),
                            assignedUser := nextAssignedUser,
                            assignedUserName := nextAssignedUserName\<rparr>
                 in bind_err (save_task e (TasksJs 187) taskId t d)
                   (\<lambda>d1. bind_err
                      (if prevAssigned \<noteq> [] \<and> prevAssigned \<noteq> nextAssignedUser
                       then findByIdAndUpdate e (TasksJs 190) prevAssigned (pull_pending taskId) d1
                       else Inr d1)
                   (\<lambda>d2. bind_err
                      (if nextAssignedUser \<noteq> [] \<and> \<not> completed t
                       then findByIdAndUpdate e (TasksJs 193) nextAssignedUser (add_pending taskId) d2
                       else Inr d2)
                   (\<lambda>d3. bind_err
                      (if prevAssigned = nextAssignedUser \<and> nextAssignedUser \<noteq> []
                       then (if \<not> prevCompleted \<and> completed t
                             then findByIdAndUpdate e (TasksJs 197) nextAssignedUser (pull_pending taskId) d3
                             else if prevCompleted \<and> \<not> completed t
                             then findByIdAndUpdate e (TasksJs 199) nextAssignedUser (add_pending taskId) d3
                             else Inr d3)
                       else Inr d3)
                   (\<lambda>d4. Inr (Updated taskId t, d4)))))))"

definition task_put :: "env \<Rightarrow> string \<Rightarrow> task_body \<Rightarrow> db \<Rightarrow> response \<times> db" where
  "task_put e i body d =
     (case withTransaction (task_put_txn e i body) d of
        (Inr NotFoundSent, d') \<Rightarrow> (Json 404 ''Task not found'' EmptyObject, d')
      | (Inr (Updated k t), d') \<Rightarrow> (Json 200 ''Task updated successfully'' (TaskDoc k t), d')
      | (Inl CastError_id, d') \<Rightarrow> (Json 404 ''Task not found'' EmptyObject, d')
      | (Inl (Status400 m), d') \<Rightarrow> (Json 400 m EmptyObject, d')
      | (Inl ValidationError, d') \<Rightarrow>
          (Json 400 ''Invalid task data: name and deadline are required'' EmptyObject, d')
      | (Inl _, d') \<Rightarrow> (Json 500 ''Error updating task'' EmptyObject, d'))"

subsection \<open>DELETE /api/tasks/:id\<close>

definition task_delete_txn :: "env \<Rightarrow> string \<Rightarrow> db \<Rightarrow> err + (response \<times> db)" where
  "task_delete_txn e i d =
     bind_err (findById e (TasksJs 226) (tasks d) i)
       (\<lambda>found. case found of
          None \<Rightarrow> Inr (Json 404 ''Task not found'' EmptyObject, d)
        | Some t \<Rightarrow>
            bind_err (deleteOne_task e (TasksJs 231) (canonical e i) d)
              (\<lambda>d1. bind_err
                 (if assignedUser t \<noteq> [] \<and> \<not> completed t
                  then findByIdAndUpdate e (TasksJs 234) (assignedUser t) (pull_pending (canonical e i)) d1
                  else Inr d1)
              (\<lambda>d2. Inr (Send 204, d2))))"

definition task_delete :: "env \<Rightarrow> string \<Rightarrow> db \<Rightarrow> response \<times> db" where
  "task_delete e i d =
     (case withTransaction (task_delete_txn e i) d of
        (Inr r, d') \<Rightarrow> (r, d')
      | (Inl CastError_id, d') \<Rightarrow> (Json 404 ''Task not found'' EmptyObject, d')
      | (Inl _, d') \<Rightarrow> (Json 500 ''Error deleting task'' EmptyObject, d'))"

section \<open>routes/users.js\<close>

definition truthy_str :: "string option \<Rightarrow> bool" where
  "truthy_str s = (case s of None \<Rightarrow> False | Some v \<Rightarrow> v \<noteq> [])"

text \<open>\<open>Array.from(new Set(xs))\<close>: the elements of \<open>xs\<close>, each once, at its first place.\<close>

definition new_Set :: "'a list \<Rightarrow> 'a list" where
  "new_Set xs = foldl (\<lambda>acc x. addToSet x acc) [] xs"

definition unassign :: "task \<Rightarrow> task" where
  "unassign t = t\<lparr>assignedUser := [], assignedUserName := ''unassigned''\<rparr>"

definition assign_to :: "string \<Rightarrow> string \<Rightarrow> task \<Rightarrow> task" where
  "assign_to uid nm t = t\<lparr>assignedUser := uid, assignedUserName := nm\<rparr>"

subsection \<open>POST /api/users\<close>

fun users_post_catch :: "err \<Rightarrow> response" where
  "users_post_catch ValidationError = Json 400 ''Validation error'' (ErrObject ValidationError)"
| "users_post_catch (MongoError c m) =
     (if c = 11000 then Json 409 ''User with this email already exists'' (ErrObject (MongoError c m))
      else Json 500 ''Error creating user'' (ErrObject (MongoError c m)))"
| "users_post_catch x = Json 500 ''Error creating user'' (ErrObject x)"

definition users_post :: "env \<Rightarrow> oid \<Rightarrow> nat \<Rightarrow> user_body \<Rightarrow> db \<Rightarrow> response \<times> db" where
  "users_post e newId now body d =
     (if \<not> truthy_str (ub_name body) \<or> \<not> truthy_str (ub_email body)
      then (Json 400 ''name and email are required'' EmptyObject, d)
      else
        let u = \<lparr>user_name = or_empty (ub_name body),
                 email = or_empty (ub_email body),
                 pendingTasks = (case ub_pendingTasks body of None \<Rightarrow> [] | Some ps \<Rightarrow> ps),
                 user_dateCreated = now\<rparr>
        in case insert_user e (UsersJs 74) newId u d of
             Inl x \<Rightarrow> (users_post_catch x, d)
           | Inr d1 \<Rightarrow> (Json 201 ''User created successfully'' (UserDoc newId u), d1))"

subsection \<open>PUT /api/users/:id\<close>

fun user_put_catch :: "err \<Rightarrow> response" where
  "user_put_catch CastError_id = Json 404 ''User not found'' EmptyObject"
| "user_put_catch (MongoError c m) =
     (if c = 11000 then Json 409 ''User with this email already exists'' (ErrObject (MongoError c m))
      else Json 500 ''Error updating user'' (ErrObject (MongoError c m)))"
| "user_put_catch ValidationError = Json 400 ''Validation error'' (ErrObject ValidationError)"
| "user_put_catch x = Json 500 ''Error updating user'' (ErrObject x)"

text \<open>
  The route runs without a transaction: each write is in the store as soon as its call
  returns, so the state that comes back with an error response is the state at the throw.
  \<open>userId\<close> is \<open>String(user._id)\<close> of the user that was read.
\<close>

definition user_put :: "env \<Rightarrow> string \<Rightarrow> user_body \<Rightarrow> db \<Rightarrow> response \<times> db" where
  "user_put e i body d =
     (case findById e (UsersJs 108) (users d) i of
        Inl x \<Rightarrow> (user_put_catch x, d)
      | Inr None \<Rightarrow> (Json 404 ''User not found'' EmptyObject, d)
      | Inr (Some u0) \<Rightarrow>
          if \<not> truthy_str (ub_name body) \<or> \<not> truthy_str (ub_email body)
          then (Json 400 ''name and email are required for PUT'' EmptyObject, d)
          else
            let userId = canonical e i;
                oldPending = new_Set (pendingTasks u0);
                newPending = new_Set (case ub_pendingTasks body of None \<Rightarrow> [] | Some ps \<Rightarrow> ps);
                u = u0\<lparr>user_name := or_empty (ub_name body),
                       email := or_empty (ub_email body),
                       pendingTasks := newPending\<rparr>
            in case save_user e (UsersJs 130) userId u d of
                 Inl x \<Rightarrow> (user_put_catch x, d)
               | Inr d1 \<Rightarrow>
                   let removed = filter (\<lambda>k. k \<notin> set newPending) oldPending
                   in case (if removed \<noteq> []
                            then updateMany_tasks e (UsersJs 136) (Some removed)
                                   (\<lambda>t. assignedUser t = userId) unassign d1
                            else Inr d1) of
                        Inl x \<Rightarrow> (user_put_catch x, d1)
                      | Inr d2 \<Rightarrow>
                          let added = filter (\<lambda>k. k \<notin> set oldPending) newPending
                          in case (if added \<noteq> []
                                   then updateMany_tasks e (UsersJs 145) (Some added)
                                          (\<lambda>_. True) (assign_to userId (user_name u)) d2
                                   else Inr d2) of
                               Inl x \<Rightarrow> (user_put_catch x, d2)
                             | Inr d3 \<Rightarrow> (Json 200 ''User updated successfully'' (UserDoc userId u), d3))"

subsection \<open>DELETE /api/users/:id\<close>

fun user_delete_catch :: "err \<Rightarrow> response" where
  "user_delete_catch CastError_id = Json 404 ''User not found'' EmptyObject"
| "user_delete_catch x = Json 500 ''Error deleting user'' (ErrObject x)"

definition user_delete :: "env \<Rightarrow> string \<Rightarrow> db \<Rightarrow> response \<times> db" where
  "user_delete e i d =
     (case findById e (UsersJs 169) (users d) i of
        Inl x \<Rightarrow> (user_delete_catch x, d)
      | Inr None \<Rightarrow> (Json 404 ''User not found'' EmptyObject, d)
      | Inr (Some u0) \<Rightarrow>
          (case updateMany_tasks e (UsersJs 175) None (\<lambda>t. assignedUser t = canonical e i) unassign d of
             Inl x \<Rightarrow> (user_delete_catch x, d)
           | Inr d1 \<Rightarrow>
               (case deleteOne_user e (UsersJs 180) (canonical e i) d1 of
                  Inl x \<Rightarrow> (user_delete_catch x, d1)
                | Inr d2 \<Rightarrow> (Json 200 ''User deleted successfully'' EmptyObject, d2))))"

section \<open>List and read requests\<close>

text \<open>
  \<open>JSON.parse\<close> and the values it returns stay abstract: \<open>jsonParse s\<close> is \<open>None\<close> when
  \<open>JSON.parse(s)\<close> throws, \<open>truthyJ\<close> is the truth value of a parsed value and
  \<open>emptyObj\<close> is \<open>{}\<close>.
\<close>

record 'j json_ops =
  jsonParse :: "string \<Rightarrow> 'j option"
  truthyJ :: "'j \<Rightarrow> bool"
  emptyObj :: 'j

text \<open>The query string of a list request; a parameter that is not given is \<open>None\<close>.\<close>

record list_query =
  q_where :: "string option"
  q_sort :: "string option"
  q_select :: "string option"
  q_skip :: "string option"
  q_limit :: "string option"
  q_count :: "string option"

text \<open>
  What the route has put on the Mongoose query when it calls \<open>exec\<close>. No \<open>find_select\<close>
  stands for the default projection \<open>-__v\<close>.
\<close>

record 'j query =
  find_filter :: 'j
  find_sort :: "'j option"
  find_select :: "'j option"
  find_skip :: "int option"
  find_limit :: "int option"

datatype 'j plan = CountDocuments 'j | Find "'j query"

text \<open>\<open>parseJSON\<close>: \<open>Inl m\<close> is the thrown error, with status 400 and message \<open>m\<close>.\<close>

definition parseJSON :: "'j json_ops \<Rightarrow> string option \<Rightarrow> string \<Rightarrow> string + 'j option" where
  "parseJSON J q fieldName =
     (case q of
        None \<Rightarrow> Inr None
      | Some s \<Rightarrow>
          if s = [] then Inr None
          else (case jsonParse J s of
                  None \<Rightarrow> Inl (''Invalid JSON in '' @ [CHR 0x22] @ fieldName @ [CHR 0x22])
                | Some v \<Rightarrow> Inr (Some v)))"

text \<open>\<open>v || {}\<close> and \<open>if (v)\<close> on what \<open>parseJSON\<close> returned.\<close>

definition or_emptyObj :: "'j json_ops \<Rightarrow> 'j option \<Rightarrow> 'j" where
  "or_emptyObj J r = (case r of None \<Rightarrow> emptyObj J | Some v \<Rightarrow> if truthyJ J v then v else emptyObj J)"

definition if_truthy :: "'j json_ops \<Rightarrow> 'j option \<Rightarrow> 'j option" where
  "if_truthy J r = (case r of None \<Rightarrow> None | Some v \<Rightarrow> if truthyJ J v then Some v else None)"

text \<open>Lines 64 to 67 of tasks.js and 47 to 50 of users.js.\<close>

definition skip_param :: "string option \<Rightarrow> int option" where
  "skip_param s = (if truthy_str s then parseInt (or_empty s) else None)"

text \<open>Lines 68 to 73 of tasks.js.\<close>

definition tasks_limit :: "string option \<Rightarrow> int option" where
  "tasks_limit s =
     (if truthy_str s
      then (case parseInt (or_empty s) of None \<Rightarrow> None | Some n \<Rightarrow> if n > 0 then Some n else None)
      else Some 100)"

text \<open>Lines 51 to 54 of users.js.\<close>

definition users_limit :: "string option \<Rightarrow> int option" where
  "users_limit s =
     (if truthy_str s
      then (case parseInt (or_empty s) of None \<Rightarrow> None | Some n \<Rightarrow> if n > 0 then Some n else None)
      else None)"

definition list_plan :: "'j json_ops \<Rightarrow> (string option \<Rightarrow> int option) \<Rightarrow> list_query \<Rightarrow> string + 'j plan" where
  "list_plan J limit_param q =
     (case parseJSON J (q_where q) ''where'' of
        Inl m \<Rightarrow> Inl m
      | Inr w \<Rightarrow>
          if q_count q = Some ''true'' then Inr (CountDocuments (or_emptyObj J w))
          else (case parseJSON J (q_sort q) ''sort'' of
                  Inl m \<Rightarrow> Inl m
                | Inr srt \<Rightarrow>
                    (case parseJSON J (q_select q) ''select'' of
                       Inl m \<Rightarrow> Inl m
                     | Inr sel \<Rightarrow>
                         Inr (Find \<lparr>find_filter = or_emptyObj J w,
                                    find_sort = if_truthy J srt,
                                    find_select = if_truthy J sel,
                                    find_skip = skip_param (q_skip q),
                                    find_limit = limit_param (q_limit q)\<rparr>))))"

definition tasks_query :: "'j json_ops \<Rightarrow> list_query \<Rightarrow> string + 'j plan" where
  "tasks_query J q = list_plan J tasks_limit q"

definition users_query :: "'j json_ops \<Rightarrow> list_query \<Rightarrow> string + 'j plan" where
  "users_query J q = list_plan J users_limit q"

text \<open>
  Modelled from the spec: the store's query execution engine is an external collaborator
  ("assumed to offer per-document CRUD, a query/filter/sort/projection/limit/skip
  interface"). \<open>matches\<close> decides a filter on a document and \<open>sorter\<close> orders by a sort
  specification; skip and limit cut the ordered list; the store refuses a negative skip
  with \<open>skipError\<close>. Projections only hide fields and are left out of the results.
\<close>

record ('j, 'd) engine =
  matches :: "'j \<Rightarrow> oid \<Rightarrow> 'd \<Rightarrow> bool"
  sorter :: "'j \<Rightarrow> (oid \<times> 'd) list \<Rightarrow> (oid \<times> 'd) list"
  skipError :: "nat \<times> string"

definition matching :: "('j, 'd) engine \<Rightarrow> 'j \<Rightarrow> (oid \<times> 'd) list \<Rightarrow> (oid \<times> 'd) list" where
  "matching E w docs = filter (\<lambda>(k, v). matches E w k v) docs"

definition ordered :: "('j, 'd) engine \<Rightarrow> 'j query \<Rightarrow> (oid \<times> 'd) list \<Rightarrow> (oid \<times> 'd) list" where
  "ordered E q docs =
     (case find_sort q of
        None \<Rightarrow> matching E (find_filter q) docs
      | Some s \<Rightarrow> sorter E s (matching E (find_filter q) docs))"

definition limited :: "int option \<Rightarrow> 'a list \<Rightarrow> 'a list" where
  "limited l xs = (case l of None \<Rightarrow> xs | Some n \<Rightarrow> take (nat n) xs)"

definition exec_find :: "('j, 'd) engine \<Rightarrow> 'j query \<Rightarrow> (oid \<times> 'd) list \<Rightarrow> (nat \<times> string) + (oid \<times> 'd) list" where
  "exec_find E q docs =
     (case find_skip q of
        None \<Rightarrow> Inr (limited (find_limit q) (ordered E q docs))
      | Some n \<Rightarrow>
          if n < 0 then Inl (skipError E)
          else Inr (limited (find_limit q) (drop (nat n) (ordered E q docs))))"

text \<open>An awaited read: rejected by the store, or the result of the engine.\<close>

definition run_read :: "env \<Rightarrow> store_call \<Rightarrow> (nat \<times> string) + 'a \<Rightarrow> (nat \<times> string) + 'a" where
  "run_read e c r = (case rejects e c of Some x \<Rightarrow> Inl x | None \<Rightarrow> r)"

subsection \<open>GET /api/tasks\<close>

definition tasks_get :: "env \<Rightarrow> 'j json_ops \<Rightarrow> ('j, task) engine \<Rightarrow> list_query \<Rightarrow> db \<Rightarrow> response" where
  "tasks_get e J E q d =
     (case tasks_query J q of
        Inl m \<Rightarrow> Json 400 m EmptyObject
      | Inr (CountDocuments w) \<Rightarrow>
          (case run_read e (TasksJs 50) (Inr (length (matching E w (tasks d)))) of
             Inl _ \<Rightarrow> Json 500 ''Error getting tasks'' EmptyObject
           | Inr n \<Rightarrow> Json 200 ''OK'' (Count n))
      | Inr (Find fq) \<Rightarrow>
          (case run_read e (TasksJs 75) (exec_find E fq (tasks d)) of
             Inl _ \<Rightarrow> Json 500 ''Error getting tasks'' EmptyObject
           | Inr docs \<Rightarrow> Json 200 ''OK'' (TaskDocs docs)))"

subsection \<open>GET /api/users\<close>

definition message_or :: "string \<Rightarrow> string \<Rightarrow> string" where
  "message_or m dflt = (if m = [] then dflt else m)"

definition users_get :: "env \<Rightarrow> 'j json_ops \<Rightarrow> ('j, user) engine \<Rightarrow> list_query \<Rightarrow> db \<Rightarrow> response" where
  "users_get e J E q d =
     (case users_query J q of
        Inl m \<Rightarrow> Json 400 (message_or m ''Error getting users'') EmptyObject
      | Inr (CountDocuments w) \<Rightarrow>
          (case run_read e (UsersJs 33) (Inr (length (matching E w (users d)))) of
             Inl (c, m) \<Rightarrow> Json 500 (message_or m ''Error getting users'') EmptyObject
           | Inr n \<Rightarrow> Json 200 ''OK'' (Count n))
      | Inr (Find fq) \<Rightarrow>
          (case run_read e (UsersJs 56) (exec_find E fq (users d)) of
             Inl (c, m) \<Rightarrow> Json 500 (message_or m ''Error getting users'') EmptyObject
           | Inr docs \<Rightarrow> Json 200 ''OK'' (UserDocs docs)))"

subsection \<open>GET /api/tasks/:id and GET /api/users/:id\<close>

text \<open>
  The error of a \<open>select\<close> that does not parse has no \<open>CastError\<close> name, so the catch of
  these two routes answers it with 500.
\<close>

definition task_get :: "env \<Rightarrow> 'j json_ops \<Rightarrow> string \<Rightarrow> string option \<Rightarrow> db \<Rightarrow> response" where
  "task_get e J i sel d =
     (case parseJSON J sel ''select'' of
        Inl m \<Rightarrow> Json 500 ''Error getting task'' EmptyObject
      | Inr _ \<Rightarrow>
          (case findById e (TasksJs 143) (tasks d) i of
             Inl CastError_id \<Rightarrow> Json 404 ''Task not found'' EmptyObject
           | Inl _ \<Rightarrow> Json 500 ''Error getting task'' EmptyObject
           | Inr None \<Rightarrow> Json 404 ''Task not found'' EmptyObject
           | Inr (Some t) \<Rightarrow> Json 200 ''OK'' (TaskDoc (canonical e i) t)))"

definition user_get :: "env \<Rightarrow> 'j json_ops \<Rightarrow> string \<Rightarrow> string option \<Rightarrow> db \<Rightarrow> response" where
  "user_get e J i sel d =
     (case parseJSON J sel ''select'' of
        Inl m \<Rightarrow> Json 500 ''Error getting user'' EmptyObject
      | Inr _ \<Rightarrow>
          (case findById e (UsersJs 91) (users d) i of
             Inl CastError_id \<Rightarrow> Json 404 ''User not found'' EmptyObject
           | Inl _ \<Rightarrow> Json 500 ''Error getting user'' EmptyObject
           | Inr None \<Rightarrow> Json 404 ''User not found'' EmptyObject
           | Inr (Some u) \<Rightarrow> Json 200 ''OK'' (UserDoc (canonical e i) u)))"

section \<open>The invariant between the two collections\<close>

text \<open>
  For every task \<open>t\<close> and every user \<open>u\<close> of the store: \<open>t\<close> is assigned to \<open>u\<close> and
  not completed exactly when the pending tasks of \<open>u\<close> contain the id of \<open>t\<close>.
\<close>

definition linked :: "oid \<Rightarrow> task \<Rightarrow> oid \<Rightarrow> user \<Rightarrow> bool" where
  "linked tid t uid u \<longleftrightarrow> ((assignedUser t = uid \<and> \<not> completed t) = (tid \<in> set (pendingTasks u)))"

definition invariant :: "db \<Rightarrow> bool" where
  "invariant d \<longleftrightarrow>
     list_all (\<lambda>(tid, t). list_all (\<lambda>(uid, u). linked tid t uid u) (users d)) (tasks d)"

text \<open>
  A store is well formed when no two documents of a collection share an identifier and no
  user has the empty identifier, which on a task means "not assigned". An identifier is
  unreferenced when no user's pending tasks contain it.
\<close>

definition well_formed :: "db \<Rightarrow> bool" where
  "well_formed d \<longleftrightarrow>
     distinct (map fst (users d)) \<and> distinct (map fst (tasks d)) \<and> [] \<notin> set (map fst (users d))"

definition unreferenced :: "oid \<Rightarrow> db \<Rightarrow> bool" where
  "unreferenced i d \<longleftrightarrow> list_all (\<lambda>(uid, u). i \<notin> set (pendingTasks u)) (users d)"

section \<open>A concrete store\<close>

text \<open>
  An environment and a small store on which the routes are run below. An ObjectId is
  written as 24 hexadecimal digits, and \<open>String\<close> writes it with the digits a to f in
  lower case.
\<close>

definition hexObjectId :: "string \<Rightarrow> bool" where
  "hexObjectId s \<longleftrightarrow> length s = 24 \<and> list_all (\<lambda>c. c \<in> set ''0123456789abcdefABCDEF'') s"

definition lowerHex :: "string \<Rightarrow> string" where
  "lowerHex s = map (\<lambda>c. case map_of (zip ''ABCDEF'' ''abcdef'') c of None \<Rightarrow> c | Some l \<Rightarrow> l) s"

text \<open>
  Modelled from the spec: the schemas \<open>models/task.js\<close> and \<open>models/user.js\<close> are
  missing. The spec's data model has a task name that is required and not empty, a deadline
  that is required, and a user name and email that are not empty. The store of this
  environment rejects nothing.
\<close>

definition env0 :: env where
  "env0 = \<lparr>isValidObjectId = hexObjectId,
           canonical = lowerHex,
           taskSchemaValid = (\<lambda>t. truthy_str (task_name t) \<and> deadline t \<noteq> None),
           userSchemaValid = (\<lambda>u. user_name u \<noteq> [] \<and> email u \<noteq> []),
           rejects = (\<lambda>_. None)\<rparr>"

text \<open>The same environment, with a store that rejects the second \<open>updateMany\<close> of PUT /api/users/:id.\<close>

definition env_down :: env where
  "env_down = env0\<lparr>rejects := (\<lambda>c. if c = UsersJs 145 then Some (89, ''network timeout'') else None)\<rparr>"

definition u1 :: oid where "u1 = ''64b000000000000000000001''"
definition u2 :: oid where "u2 = ''64b000000000000000000002''"
definition t1 :: oid where "t1 = ''64c000000000000000000001''"
definition t2 :: oid where "t2 = ''64c000000000000000000002''"

definition alice :: user where
  "alice = \<lparr>user_name = ''Alice'', email = ''alice@example.org'', pendingTasks = [],
            user_dateCreated = 1\<rparr>"

definition bob :: user where
  "bob = \<lparr>user_name = ''Bob'', email = ''bob@example.org'', pendingTasks = [t1],
          user_dateCreated = 2\<rparr>"

definition report :: task where
  "report = \<lparr>task_name = Some ''report'', description = [], deadline = Some ''2026-01-01'',
             completed = False, assignedUser = u2, assignedUserName = ''Bob'',
             task_dateCreated = 3\<rparr>"

definition db0 :: db where
  "db0 = \<lparr>users = [(u1, alice), (u2, bob)], tasks = [(t1, report)]\<rparr>"

text \<open>Alice's PUT /api/users/u1 that lists Bob's pending task \<open>t1\<close>.\<close>

definition claim_t1 :: user_body where
  "claim_t1 = \<lparr>ub_name = Some ''Alice'', ub_email = Some ''alice@example.org'',
               ub_pendingTasks = Some [t1]\<rparr>"

text \<open>A PUT /api/tasks/t1 body that moves the task to Alice; the client also sends a name of its own.\<close>

definition to_alice :: task_body where
  "to_alice = \<lparr>b_name = Some ''report'', b_description = None, b_deadline = Some ''2026-02-01'',
               b_completed = None, b_assignedUser = Some u1, b_assignedUserName = Some ''Mallory''\<rparr>"

text \<open>A JSON reader that knows the empty object only, and an engine that matches every document.\<close>

definition json0 :: "string json_ops" where
  "json0 = \<lparr>jsonParse = (\<lambda>s. if s = ''{}'' then Some s else None),
            truthyJ = (\<lambda>_. True),
            emptyObj = ''{}''\<rparr>"

definition task_engine0 :: "(string, task) engine" where
  "task_engine0 = \<lparr>matches = (\<lambda>_ _ _. True), sorter = (\<lambda>_ xs. xs),
                   skipError = (51024, ''skip value must be non-negative'')\<rparr>"

definition user_engine0 :: "(string, user) engine" where
  "user_engine0 = \<lparr>matches = (\<lambda>_ _ _. True), sorter = (\<lambda>_ xs. xs),
                   skipError = (51024, ''skip value must be non-negative'')\<rparr>"

definition no_params :: list_query where
  "no_params = \<lparr>q_where = None, q_sort = None, q_select = None, q_skip = None,
                q_limit = None, q_count = None\<rparr>"

text \<open>The store after PUT /api/tasks/t1 with \<open>to_alice\<close>.\<close>

definition report_alice :: task where
  "report_alice = report\<lparr>deadline := Some ''2026-02-01'', assignedUser := u1,
                         assignedUserName := ''Alice''\<rparr>"

definition db_moved :: db where
  "db_moved = \<lparr>users = [(u1, alice\<lparr>pendingTasks := [t1]\<rparr>), (u2, bob\<lparr>pendingTasks := []\<rparr>)],
               tasks = [(t1, report_alice)]\<rparr>"

text \<open>A PUT /api/tasks/t1 body that leaves the task with Bob and completes it, and the store after it.\<close>

definition finish_it :: task_body where
  "finish_it = \<lparr>b_name = Some ''report (final)'', b_description = Some ''signed off'',
                b_deadline = Some ''2026-01-01'', b_completed = Some True,
                b_assignedUser = Some u2, b_assignedUserName = None\<rparr>"

definition report_done :: task where
  "report_done = report\<lparr>task_name := Some ''report (final)'', description := ''signed off'',
                        completed := True\<rparr>"

definition db_done :: db where
  "db_done = \<lparr>users = [(u1, alice), (u2, bob\<lparr>pendingTasks := []\<rparr>)],
              tasks = [(t1, report_done)]\<rparr>"

text \<open>The store after DELETE /api/users/u2, and after DELETE /api/tasks/t1.\<close>

definition db_without_bob :: db where
  "db_without_bob = \<lparr>users = [(u1, alice)],
                     tasks = [(t1, report\<lparr>assignedUser := [], assignedUserName := ''unassigned''\<rparr>)]\<rparr>"

definition db_without_t1 :: db where
  "db_without_t1 = \<lparr>users = [(u1, alice), (u2, bob\<lparr>pendingTasks := []\<rparr>)], tasks = []\<rparr>"

text \<open>The store after Alice's PUT /api/users/u1 with \<open>claim_t1\<close>.\<close>

definition db_claimed :: db where
  "db_claimed = \<lparr>users = [(u1, alice\<lparr>pendingTasks := [t1]\<rparr>), (u2, bob)],
                 tasks = [(t1, report\<lparr>assignedUser := u1, assignedUserName := ''Alice''\<rparr>)]\<rparr>"

text \<open>The store when the same request meets \<open>env_down\<close>: the user is written, the task is not.\<close>

definition db_half :: db where
  "db_half = \<lparr>users = [(u1, alice\<lparr>pendingTasks := [t1]\<rparr>), (u2, bob)], tasks = [(t1, report)]\<rparr>"

text \<open>Bob's PUT /api/users/u2 with an empty list of pending tasks, and the store after it.\<close>

definition release_all :: user_body where
  "release_all = \<lparr>ub_name = Some ''Bob'', ub_email = Some ''bob@example.org'',
                  ub_pendingTasks = Some []\<rparr>"

definition db_released :: db where
  "db_released = \<lparr>users = [(u1, alice), (u2, bob\<lparr>pendingTasks := []\<rparr>)],
                  tasks = [(t1, report\<lparr>assignedUser := [], assignedUserName := ''unassigned''\<rparr>)]\<rparr>"

text \<open>The store after POST /api/tasks with \<open>to_alice\<close>, when the new task gets the id \<open>t2\<close> at time 7.\<close>

definition db_created :: db where
  "db_created = \<lparr>users = [(u1, alice\<lparr>pendingTasks := [t2]\<rparr>), (u2, bob)],
                 tasks = [(t1, report), (t2, report_alice\<lparr>task_dateCreated := 7\<rparr>)]\<rparr>"

text \<open>
  Alice's PUT /api/users/u1 that names Bob's task with the hexadecimal digits in upper case,
  and the store after it.
\<close>

definition t1_upper :: string where "t1_upper = ''64C000000000000000000001''"

definition claim_t1_upper :: user_body where
  "claim_t1_upper = \<lparr>ub_name = Some ''Alice'', ub_email = Some ''alice@example.org'',
                     ub_pendingTasks = Some [t1_upper]\<rparr>"

definition db_claimed_upper :: db where
  "db_claimed_upper = \<lparr>users = [(u1, alice\<lparr>pendingTasks := [t1_upper]\<rparr>), (u2, bob)],
                       tasks = [(t1, report\<lparr>assignedUser := u1, assignedUserName := ''Alice''\<rparr>)]\<rparr>"

text \<open>
  A POST /api/tasks body whose \<open>assignedUser\<close> is three blanks, the task it creates and
  the store after it.
\<close>

definition blank_assignee :: task_body where
  "blank_assignee = \<lparr>b_name = Some ''report'', b_description = None, b_deadline = Some ''2026-02-01'',
                     b_completed = None, b_assignedUser = Some ''   '', b_assignedUserName = None\<rparr>"

definition nobodys_report :: task where
  "nobodys_report = \<lparr>task_name = Some ''report'', description = [], deadline = Some ''2026-02-01'',
                     completed = False, assignedUser = [], assignedUserName = ''unassigned'',
                     task_dateCreated = 7\<rparr>"

definition db_nobodys :: db where
  "db_nobodys = \<lparr>users = [(u1, alice), (u2, bob)], tasks = [(t1, report), (t2, nobodys_report)]\<rparr>"

text \<open>A store with a second pending task of Bob, and that store after DELETE /api/tasks/t1.\<close>

definition db_two :: db where
  "db_two = \<lparr>users = [(u1, alice), (u2, bob\<lparr>pendingTasks := [t2, t1]\<rparr>)],
             tasks = [(t1, report), (t2, report\<lparr>task_name := Some ''slides''\<rparr>)]\<rparr>"

definition db_two_without_t1 :: db where
  "db_two_without_t1 = \<lparr>users = [(u1, alice), (u2, bob\<lparr>pendingTasks := [t2]\<rparr>)],
                        tasks = [(t2, report\<lparr>task_name := Some ''slides''\<rparr>)]\<rparr>"

section \<open>What the store operations return\<close>

lemma bind_err_Inr: "bind_err m f = Inr r \<longleftrightarrow> (\<exists>a. m = Inr a \<and> f a = Inr r)"
  by (cases m) (simp_all add: bind_err_def)

lemma awaited_Inr: "awaited e c r = Inr r' \<longleftrightarrow> rejects e c = None \<and> r' = r"
  by (auto simp: awaited_def split: option.splits)

lemma findById_Inr:
  "findById e c coll i = Inr r \<longleftrightarrow>
     isValidObjectId e i \<and> rejects e c = None \<and> r = map_of coll (canonical e i)"
  by (auto simp: findById_def awaited_Inr)

lemma findByIdAndUpdate_Inr:
  "findByIdAndUpdate e c x f d = Inr d' \<longleftrightarrow>
     isValidObjectId e x \<and> rejects e c = None \<and> d' = d\<lparr>users := AList.map_entry x f (users d)\<rparr>"
  by (auto simp: findByIdAndUpdate_def awaited_Inr)

lemma update_step:
  assumes "(if c then findByIdAndUpdate e cl x f d else Inr d) = Inr d'"
  shows "tasks d' = tasks d"
    and "users d' = (if c then AList.map_entry x f (users d) else users d)"
  using assms by (auto simp: findByIdAndUpdate_Inr split: if_splits)

lemma save_task_Inr:
  "save_task e c i t d = Inr d' \<longleftrightarrow>
     taskSchemaValid e t \<and> rejects e c = None \<and> d' = d\<lparr>tasks := AList.map_entry i (\<lambda>_. t) (tasks d)\<rparr>"
  by (auto simp: save_task_def awaited_Inr)

lemma insert_task_Inr:
  "insert_task e c i t d = Inr d' \<longleftrightarrow>
     taskSchemaValid e t \<and> map_of (tasks d) i = None \<and> rejects e c = None \<and> d' = d\<lparr>tasks := tasks d @ [(i, t)]\<rparr>"
  by (auto simp: insert_task_def awaited_Inr)

lemma deleteOne_task_Inr:
  "deleteOne_task e c i d = Inr d' \<longleftrightarrow> rejects e c = None \<and> d' = d\<lparr>tasks := AList.delete_aux i (tasks d)\<rparr>"
  by (auto simp: deleteOne_task_def awaited_Inr)

lemma set_addToSet: "set (addToSet x xs) = insert x (set xs)"
  by (auto simp: addToSet_def)

lemma set_pull: "set (pull x xs) = set xs - {x}"
  by (auto simp: pull_def)

lemma distinct_addToSet: "distinct xs \<Longrightarrow> distinct (addToSet x xs)"
  by (simp add: addToSet_def)

lemma distinct_pull: "distinct xs \<Longrightarrow> distinct (pull x xs)"
  by (simp add: pull_def)

lemma resolve_assignee_Inr:
  assumes "resolve_assignee e d a = Inr (uid, nm)"
  shows "(uid = [] \<and> nm = ''unassigned'') \<or>
         (\<exists>s u. a = Some s \<and> isValidObjectId e s \<and> uid = canonical e s \<and>
                map_of (users d) uid = Some u \<and> nm = user_name u)"
  using assms
  by (auto simp: resolve_assignee_def ensureUserExists_def bind_err_Inr findById_Inr
           split: if_splits option.splits)

text \<open>What a replacement that went through has written.\<close>

lemma task_put_txn_Updated:
  assumes "task_put_txn e i body d = Inr (Updated k t, d')"
  obtains t0 nxt nm where
    "map_of (tasks d) k = Some t0"
    "resolve_assignee e d (b_assignedUser body) = Inr (nxt, nm)"
    "k = canonical e i"
    "t = t0\<lparr>task_name := b_name body, description := or_empty (b_description body),
            deadline := b_deadline body, completed := truthy_bool (b_completed body),
            assignedUser := nxt, assignedUserName := nm\<rparr>"
    "taskSchemaValid e t"
    "tasks d' = AList.map_entry k (\<lambda>_. t) (tasks d)"
    "users d' =
       (let us1 = (if assignedUser t0 \<noteq> [] \<and> assignedUser t0 \<noteq> nxt
                   then AList.map_entry (assignedUser t0) (pull_pending k) (users d) else users d);
            us2 = (if nxt \<noteq> [] \<and> \<not> completed t
                   then AList.map_entry nxt (add_pending k) us1 else us1)
        in if assignedUser t0 = nxt \<and> nxt \<noteq> []
           then (if \<not> completed t0 \<and> completed t then AList.map_entry nxt (pull_pending k) us2
                 else if completed t0 \<and> \<not> completed t then AList.map_entry nxt (add_pending k) us2
                 else us2)
           else us2)"
proof -
  let ?t = "\<lambda>t0 nxt nm. t0\<lparr>task_name := b_name body, description := or_empty (b_description body),
            deadline := b_deadline body, completed := truthy_bool (b_completed body),
            assignedUser := nxt, assignedUserName := nm\<rparr>"
  from assms obtain t0 nxt nm d1 d2 d3 where
    t0: "map_of (tasks d) k = Some t0" and
    ra: "resolve_assignee e d (b_assignedUser body) = Inr (nxt, nm)" and
    sv: "save_task e (TasksJs 187) k (?t t0 nxt nm) d = Inr d1" and
    s1: "(if assignedUser t0 \<noteq> [] \<and> assignedUser t0 \<noteq> nxt
          then findByIdAndUpdate e (TasksJs 190) (assignedUser t0) (pull_pending k) d1
          else Inr d1) = Inr d2" and
    s2: "(if nxt \<noteq> [] \<and> \<not> truthy_bool (b_completed body)
          then findByIdAndUpdate e (TasksJs 193) nxt (add_pending k) d2
          else Inr d2) = Inr d3" and
    s3: "(if assignedUser t0 = nxt \<and> nxt \<noteq> []
          then (if \<not> completed t0 \<and> completed (?t t0 nxt nm)
                then findByIdAndUpdate e (TasksJs 197) nxt (pull_pending k) d3
                else if completed t0 \<and> \<not> completed (?t t0 nxt nm)
                then findByIdAndUpdate e (TasksJs 199) nxt (add_pending k) d3
                else Inr d3)
          else Inr d3) = Inr d'" and
    kt: "k = canonical e i" "t = ?t t0 nxt nm"
    by (simp add: task_put_txn_def bind_err_Inr findById_Inr Let_def split: option.splits prod.splits
             split del: if_split) blast
  from sv have v: "taskSchemaValid e t" and d1: "d1 = d\<lparr>tasks := AList.map_entry k (\<lambda>_. t) (tasks d)\<rparr>"
    using kt by (simp_all add: save_task_Inr)
  have u2: "tasks d2 = tasks d1"
    "users d2 = (if assignedUser t0 \<noteq> [] \<and> assignedUser t0 \<noteq> nxt
                 then AList.map_entry (assignedUser t0) (pull_pending k) (users d1) else users d1)"
    using update_step[OF s1] by simp_all
  have u3: "tasks d3 = tasks d2"
    "users d3 = (if nxt \<noteq> [] \<and> \<not> truthy_bool (b_completed body)
                 then AList.map_entry nxt (add_pending k) (users d2) else users d2)"
    using update_step[OF s2] by simp_all
  have u4: "tasks d' = tasks d3"
    "users d' = (if assignedUser t0 = nxt \<and> nxt \<noteq> []
           then (if \<not> completed t0 \<and> truthy_bool (b_completed body) then AList.map_entry nxt (pull_pending k) (users d3)
                 else if completed t0 \<and> \<not> truthy_bool (b_completed body) then AList.map_entry nxt (add_pending k) (users d3)
                 else users d3)
           else users d3)"
    using s3 by (auto simp: findByIdAndUpdate_Inr split: if_splits)
  show thesis
  proof (rule that[OF t0 ra kt(1) kt(2) v])
    show "tasks d' = AList.map_entry k (\<lambda>_. t) (tasks d)"
      using u4(1) u3(1) u2(1) d1 by simp
    show "users d' =
       (let us1 = (if assignedUser t0 \<noteq> [] \<and> assignedUser t0 \<noteq> nxt
                   then AList.map_entry (assignedUser t0) (pull_pending k) (users d) else users d);
            us2 = (if nxt \<noteq> [] \<and> \<not> completed t
                   then AList.map_entry nxt (add_pending k) us1 else us1)
        in if assignedUser t0 = nxt \<and> nxt \<noteq> []
           then (if \<not> completed t0 \<and> completed t then AList.map_entry nxt (pull_pending k) us2
                 else if completed t0 \<and> \<not> completed t then AList.map_entry nxt (add_pending k) us2
                 else us2)
           else us2)"
      unfolding Let_def u4(2) u3(2) u2(2) using d1 kt(2) by auto
  qed
qed

lemmas ex_defs = env0_def env_down_def hexObjectId_def lowerHex_def t1_upper_def claim_t1_upper_def
  db_claimed_upper_def blank_assignee_def nobodys_report_def db_nobodys_def db_two_def db_two_without_t1_def u1_def u2_def t1_def t2_def alice_def bob_def
  report_def db0_def claim_t1_def to_alice_def report_alice_def db_moved_def finish_it_def report_done_def db_done_def
  db_without_bob_def db_without_t1_def db_claimed_def db_half_def release_all_def db_released_def
  db_created_def json0_def task_engine0_def user_engine0_def no_params_def


lemmas route_defs = task_put_def task_put_txn_def withTransaction_def bind_err_def findById_def
  awaited_def save_task_def findByIdAndUpdate_def resolve_assignee_def ensureUserExists_def
  trim_def dropWhiteSpace.simps wsLength_def whiteSpaces_def selected_def or_empty_def truthy_bool_def truthy_str_def add_pending_def pull_pending_def
  addToSet_def pull_def task_delete_def task_delete_txn_def deleteOne_task_def
  user_delete_def updateMany_tasks_def deleteOne_user_def unassign_def assign_to_def
  user_put_def save_user_def new_Set_def tasks_post_def tasks_post_txn_def insert_task_def Let_def

lemma task_put_200:
  assumes "task_put e i body d = (Json 200 m dat, d')"
  shows "\<exists>k t. dat = TaskDoc k t \<and> task_put_txn e i body d = Inr (Updated k t, d')"
  using assms
  by (auto simp: task_put_def withTransaction_def split: sum.splits prod.splits err.splits put_outcome.splits)

lemma task_put_txn_eqs:
  assumes "task_put_txn e i body d = Inr (Updated k t, d')"
      and "map_of (tasks d) k = Some t0"
  shows "\<exists>nxt nm.
    resolve_assignee e d (b_assignedUser body) = Inr (nxt, nm) \<and>
    k = canonical e i \<and>
    t = t0\<lparr>task_name := b_name body, description := or_empty (b_description body),
            deadline := b_deadline body, completed := truthy_bool (b_completed body),
            assignedUser := nxt, assignedUserName := nm\<rparr> \<and>
    taskSchemaValid e t \<and>
    tasks d' = AList.map_entry k (\<lambda>_. t) (tasks d) \<and>
    users d' =
       (let us1 = (if assignedUser t0 \<noteq> [] \<and> assignedUser t0 \<noteq> nxt
                   then AList.map_entry (assignedUser t0) (pull_pending k) (users d) else users d);
            us2 = (if nxt \<noteq> [] \<and> \<not> completed t
                   then AList.map_entry nxt (add_pending k) us1 else us1)
        in if assignedUser t0 = nxt \<and> nxt \<noteq> []
           then (if \<not> completed t0 \<and> completed t then AList.map_entry nxt (pull_pending k) us2
                 else if completed t0 \<and> \<not> completed t then AList.map_entry nxt (add_pending k) us2
                 else us2)
           else us2)"
proof (rule task_put_txn_Updated[OF assms(1)])
  fix t0' nxt nm
  assume "map_of (tasks d) k = Some t0'"
  with assms(2) have e: "t0' = t0" by simp
  assume "resolve_assignee e d (b_assignedUser body) = Inr (nxt, nm)" "k = canonical e i"
    "t = t0'\<lparr>task_name := b_name body, description := or_empty (b_description body),
            deadline := b_deadline body, completed := truthy_bool (b_completed body),
            assignedUser := nxt, assignedUserName := nm\<rparr>"
    "taskSchemaValid e t"
    "tasks d' = AList.map_entry k (\<lambda>_. t) (tasks d)"
    "users d' =
       (let us1 = (if assignedUser t0' \<noteq> [] \<and> assignedUser t0' \<noteq> nxt
                   then AList.map_entry (assignedUser t0') (pull_pending k) (users d) else users d);
            us2 = (if nxt \<noteq> [] \<and> \<not> completed t
                   then AList.map_entry nxt (add_pending k) us1 else us1)
        in if assignedUser t0' = nxt \<and> nxt \<noteq> []
           then (if \<not> completed t0' \<and> completed t then AList.map_entry nxt (pull_pending k) us2
                 else if completed t0' \<and> \<not> completed t then AList.map_entry nxt (add_pending k) us2
                 else us2)
           else us2)"
  then show ?thesis unfolding e by blast
qed

lemma task_put_txn_found:
  assumes "task_put_txn e i body d = Inr (Updated k t, d')"
  shows "\<exists>t0. map_of (tasks d) k = Some t0"
  by (rule task_put_txn_Updated[OF assms]) blast

section \<open>Replacing a task\<close>

text \<open>
  Claim C3. After a PUT /api/tasks/:id that succeeded, with \<open>t0\<close> the task before and
  \<open>t\<close> the task after: when the previous assignee is set and differs from the next one,
  the previous assignee's pending tasks do not contain the task id; when the next assignee
  is set and the task is not completed, the next assignee's pending tasks contain it; with
  the same assignee, the id is there after a change from completed to not completed and is
  not there after a change from not completed to completed. The pending tasks behave as
  sets: no other id is touched, and a list without duplicates stays without duplicates.
\<close>

theorem C3_task_put_pendingTasks:
  assumes ok: "task_put e i body d = (Json 200 m (TaskDoc k t), d')"
      and t0: "map_of (tasks d) k = Some t0"
  shows "(assignedUser t0 \<noteq> [] \<and> assignedUser t0 \<noteq> assignedUser t \<longrightarrow>
            (\<forall>u. map_of (users d') (assignedUser t0) = Some u \<longrightarrow> k \<notin> set (pendingTasks u)))
       \<and> (assignedUser t \<noteq> [] \<and> \<not> completed t \<longrightarrow>
            (\<exists>u. map_of (users d') (assignedUser t) = Some u \<and> k \<in> set (pendingTasks u)))
       \<and> (assignedUser t0 = assignedUser t \<and> assignedUser t \<noteq> [] \<and> completed t0 \<and> \<not> completed t \<longrightarrow>
            (\<exists>u. map_of (users d') (assignedUser t) = Some u \<and> k \<in> set (pendingTasks u)))
       \<and> (assignedUser t0 = assignedUser t \<and> assignedUser t \<noteq> [] \<and> \<not> completed t0 \<and> completed t \<longrightarrow>
            (\<forall>u. map_of (users d') (assignedUser t) = Some u \<longrightarrow> k \<notin> set (pendingTasks u)))
       \<and> (\<forall>uid u. map_of (users d') uid = Some u \<longrightarrow>
            (\<exists>u0. map_of (users d) uid = Some u0 \<and>
                  set (pendingTasks u) - {k} = set (pendingTasks u0) - {k} \<and>
                  (distinct (pendingTasks u0) \<longrightarrow> distinct (pendingTasks u))))"
proof -
  from task_put_200[OF ok] have txn: "task_put_txn e i body d = Inr (Updated k t, d')" by simp
  from task_put_txn_eqs[OF txn t0] obtain nxt nm where
    ra: "resolve_assignee e d (b_assignedUser body) = Inr (nxt, nm)" and
    t: "t = t0\<lparr>task_name := b_name body, description := or_empty (b_description body),
            deadline := b_deadline body, completed := truthy_bool (b_completed body),
            assignedUser := nxt, assignedUserName := nm\<rparr>" and
    us: "users d' =
       (let us1 = (if assignedUser t0 \<noteq> [] \<and> assignedUser t0 \<noteq> nxt
                   then AList.map_entry (assignedUser t0) (pull_pending k) (users d) else users d);
            us2 = (if nxt \<noteq> [] \<and> \<not> completed t
                   then AList.map_entry nxt (add_pending k) us1 else us1)
        in if assignedUser t0 = nxt \<and> nxt \<noteq> []
           then (if \<not> completed t0 \<and> completed t then AList.map_entry nxt (pull_pending k) us2
                 else if completed t0 \<and> \<not> completed t then AList.map_entry nxt (add_pending k) us2
                 else us2)
           else us2)"
    by blast
  have nx: "assignedUser t = nxt" using t by simp
  have ex: "nxt \<noteq> [] \<Longrightarrow> \<exists>u. map_of (users d) nxt = Some u"
    using resolve_assignee_Inr[OF ra] by auto
  have A: "assignedUser t0 \<noteq> [] \<and> assignedUser t0 \<noteq> assignedUser t \<longrightarrow>
            (\<forall>u. map_of (users d') (assignedUser t0) = Some u \<longrightarrow> k \<notin> set (pendingTasks u))"
    unfolding us nx Let_def
    by (auto simp: map_of_map_entry pull_pending_def add_pending_def set_pull set_addToSet
             split: option.splits if_splits)
  have B: "assignedUser t \<noteq> [] \<and> \<not> completed t \<longrightarrow>
            (\<exists>u. map_of (users d') (assignedUser t) = Some u \<and> k \<in> set (pendingTasks u))"
  proof (intro impI)
    assume h: "assignedUser t \<noteq> [] \<and> \<not> completed t"
    then obtain u0 where "map_of (users d) nxt = Some u0" using ex nx by auto
    with h show "\<exists>u. map_of (users d') (assignedUser t) = Some u \<and> k \<in> set (pendingTasks u)"
      unfolding us nx Let_def
      by (auto simp: map_of_map_entry pull_pending_def add_pending_def set_pull set_addToSet)
  qed
  have C: "assignedUser t0 = assignedUser t \<and> assignedUser t \<noteq> [] \<and> \<not> completed t0 \<and> completed t \<longrightarrow>
            (\<forall>u. map_of (users d') (assignedUser t) = Some u \<longrightarrow> k \<notin> set (pendingTasks u))"
    unfolding us nx Let_def
    by (auto simp: map_of_map_entry pull_pending_def add_pending_def set_pull set_addToSet
             split: option.splits if_splits)
  have D: "\<forall>uid u. map_of (users d') uid = Some u \<longrightarrow>
            (\<exists>u0. map_of (users d) uid = Some u0 \<and>
                  set (pendingTasks u) - {k} = set (pendingTasks u0) - {k} \<and>
                  (distinct (pendingTasks u0) \<longrightarrow> distinct (pendingTasks u)))"
    unfolding us nx Let_def
    by (auto simp: map_of_map_entry pull_pending_def add_pending_def set_pull set_addToSet
                   distinct_pull distinct_addToSet
             split: option.splits if_splits)
  from A B C D show ?thesis by blast
qed


lemma map_fst_map_entry: "map fst (AList.map_entry k f xs) = map fst xs"
  by (induction xs) auto

text \<open>
  Claim C10. A PUT /api/tasks/:id that succeeded keeps the task's identifier and its
  \<open>dateCreated\<close>: the stored task is the old one with \<open>name\<close>, \<open>description\<close>,
  \<open>deadline\<close>, \<open>completed\<close>, \<open>assignedUser\<close> and \<open>assignedUserName\<close> replaced, under the
  same id, and no other task changes.
\<close>

theorem C10_task_put_frame:
  assumes ok: "task_put e i body d = (Json 200 m dat, d')"
  shows "\<exists>k t0 t a n.
           k = canonical e i \<and>
           map_of (tasks d) k = Some t0 \<and> dat = TaskDoc k t \<and> map_of (tasks d') k = Some t \<and>
           t = t0\<lparr>task_name := b_name body, description := or_empty (b_description body),
                  deadline := b_deadline body, completed := truthy_bool (b_completed body),
                  assignedUser := a, assignedUserName := n\<rparr> \<and>
           task_dateCreated t = task_dateCreated t0 \<and>
           map fst (tasks d') = map fst (tasks d) \<and>
           (\<forall>j. j \<noteq> k \<longrightarrow> map_of (tasks d') j = map_of (tasks d) j)"
proof -
  from task_put_200[OF ok] obtain k t where
    dat: "dat = TaskDoc k t" and txn: "task_put_txn e i body d = Inr (Updated k t, d')" by blast
  from task_put_txn_found[OF txn] obtain t0 where t0: "map_of (tasks d) k = Some t0" ..
  from task_put_txn_eqs[OF txn t0] obtain nxt nm where
    k: "k = canonical e i" and
    t: "t = t0\<lparr>task_name := b_name body, description := or_empty (b_description body),
            deadline := b_deadline body, completed := truthy_bool (b_completed body),
            assignedUser := nxt, assignedUserName := nm\<rparr>" and
    ts: "tasks d' = AList.map_entry k (\<lambda>_. t) (tasks d)"
    by blast
  have 1: "map_of (tasks d') k = Some t" using t0 by (simp add: ts map_of_map_entry)
  have 2: "task_dateCreated t = task_dateCreated t0" by (simp add: t)
  have 3: "map fst (tasks d') = map fst (tasks d)" by (simp add: ts map_fst_map_entry)
  have 4: "\<forall>j. j \<noteq> k \<longrightarrow> map_of (tasks d') j = map_of (tasks d) j"
    by (simp add: ts map_of_map_entry)
  from k t0 dat 1 t 2 3 4 show ?thesis by blast
qed

lemma user_delete_catch_not_200: "user_delete_catch x \<noteq> Json 200 m dat"
  by (cases x) simp_all

lemma user_put_catch_not_200: "user_put_catch x \<noteq> Json 200 m dat"
  by (cases x) simp_all

lemma updateMany_tasks_Inr:
  "updateMany_tasks e c ids q f d = Inr d' \<longleftrightarrow>
     list_all (isValidObjectId e) (case ids of None \<Rightarrow> [] | Some xs \<Rightarrow> xs) \<and> rejects e c = None \<and>
     d' = d\<lparr>tasks := AList.map_ran (\<lambda>k t. if selected e ids k \<and> q t then f t else t) (tasks d)\<rparr>"
  by (auto simp: updateMany_tasks_def awaited_Inr)

lemma deleteOne_user_Inr:
  "deleteOne_user e c i d = Inr d' \<longleftrightarrow> rejects e c = None \<and> d' = d\<lparr>users := AList.delete_aux i (users d)\<rparr>"
  by (auto simp: deleteOne_user_def awaited_Inr)

lemma save_user_Inr:
  "save_user e c i u d = Inr d' \<longleftrightarrow>
     userSchemaValid e u \<and> rejects e c = None \<and> d' = d\<lparr>users := AList.map_entry i (\<lambda>_. u) (users d)\<rparr>"
  by (auto simp: save_user_def awaited_Inr)

lemma user_delete_200:
  assumes "user_delete e i d = (Json 200 m dat, d')"
  shows "tasks d' = AList.map_ran (\<lambda>k t. if assignedUser t = canonical e i then unassign t else t) (tasks d)
       \<and> users d' = AList.delete_aux (canonical e i) (users d)"
  using assms
  by (auto simp: user_delete_def user_delete_catch_not_200 updateMany_tasks_Inr deleteOne_user_Inr
        selected_def
           split: sum.splits option.splits)

lemma task_delete_204:
  assumes "task_delete e j d = (Send 204, d')" and "map_of (tasks d) (canonical e j) = Some t"
  shows "tasks d' = AList.delete_aux (canonical e j) (tasks d)
       \<and> users d' = (if assignedUser t \<noteq> [] \<and> \<not> completed t
                     then AList.map_entry (assignedUser t) (pull_pending (canonical e j)) (users d)
                     else users d)"
  using assms
  by (auto simp: task_delete_def withTransaction_def task_delete_txn_def bind_err_Inr findById_Inr
        deleteOne_task_Inr findByIdAndUpdate_Inr
           split: sum.splits option.splits prod.splits err.splits if_splits)

section \<open>Deleting a user, deleting a task\<close>

text \<open>
  Claim C5. A DELETE /api/users/:id that succeeded leaves every task that was assigned to
  that user with no assignee and the assignee name "unassigned", whether the task is
  completed or not, and leaves the other tasks as they were. A DELETE /api/tasks/:id that
  succeeded on a task that had an assignee and was not completed takes the id of the task
  out of that assignee's pending tasks: the list keeps its other ids, in their order, and
  the user is otherwise as before.
\<close>

theorem C5_cascades:
  "(user_delete e i d = (Json 200 m dat, d') \<longrightarrow>
      tasks d' = map (\<lambda>(k, t). (k, if assignedUser t = canonical e i
                                   then t\<lparr>assignedUser := [], assignedUserName := ''unassigned''\<rparr>
                                   else t)) (tasks d))
   \<and> (task_delete e j d = (Send 204, d'') \<and> map_of (tasks d) (canonical e j) = Some t \<and>
      assignedUser t \<noteq> [] \<and> \<not> completed t \<longrightarrow>
        (\<forall>u0. map_of (users d) (assignedUser t) = Some u0 \<longrightarrow>
           (\<exists>u. map_of (users d'') (assignedUser t) = Some u \<and>
                pendingTasks u = filter (\<lambda>x. x \<noteq> canonical e j) (pendingTasks u0) \<and>
                set (pendingTasks u) = set (pendingTasks u0) - {canonical e j} \<and>
                u\<lparr>pendingTasks := pendingTasks u0\<rparr> = u0)))"
proof (intro conjI impI allI)
  assume "user_delete e i d = (Json 200 m dat, d')"
  from user_delete_200[OF this]
  show "tasks d' = map (\<lambda>(k, t). (k, if assignedUser t = canonical e i
                                   then t\<lparr>assignedUser := [], assignedUserName := ''unassigned''\<rparr>
                                   else t)) (tasks d)"
    by (auto simp: map_ran_def unassign_def)
next
  fix u0
  assume h: "task_delete e j d = (Send 204, d'') \<and> map_of (tasks d) (canonical e j) = Some t \<and>
      assignedUser t \<noteq> [] \<and> \<not> completed t"
    and u0: "map_of (users d) (assignedUser t) = Some u0"
  from h have "users d'' = AList.map_entry (assignedUser t) (pull_pending (canonical e j)) (users d)"
    using task_delete_204[of e j d d'' t] by simp
  with u0 have "map_of (users d'') (assignedUser t) =
      Some (u0\<lparr>pendingTasks := filter (\<lambda>x. x \<noteq> canonical e j) (pendingTasks u0)\<rparr>)"
    by (simp add: map_of_map_entry pull_pending_def pull_def)
  then show "\<exists>u. map_of (users d'') (assignedUser t) = Some u \<and>
                pendingTasks u = filter (\<lambda>x. x \<noteq> canonical e j) (pendingTasks u0) \<and>
                set (pendingTasks u) = set (pendingTasks u0) - {canonical e j} \<and>
                u\<lparr>pendingTasks := pendingTasks u0\<rparr> = u0"
    by auto
qed

theorem C3_task_put_pendingTasks_witness:
  "task_put env0 t1 to_alice db0 = (Json 200 ''Task updated successfully'' (TaskDoc t1 report_alice), db_moved)
   \<and> map_of (tasks db0) t1 = Some report
   \<and> map_of (users db_moved) u2 = Some (bob\<lparr>pendingTasks := []\<rparr>)
   \<and> map_of (users db_moved) u1 = Some (alice\<lparr>pendingTasks := [t1]\<rparr>)"
proof -
  have run: "task_put env0 t1 to_alice db0 =
      (Json 200 ''Task updated successfully'' (TaskDoc t1 report_alice), db_moved)"
    by (simp add: route_defs ex_defs)
  have t0: "map_of (tasks db0) t1 = Some report"
    by (simp add: ex_defs)
  from C3_task_put_pendingTasks[OF run t0] run t0 show ?thesis
    by (simp add: ex_defs)
qed

theorem C10_task_put_frame_witness:
  "task_put env0 t1 finish_it db0 = (Json 200 ''Task updated successfully'' (TaskDoc t1 report_done), db_done)
   \<and> map_of (tasks db0) t1 = Some report
   \<and> map_of (tasks db_done) t1 = Some report_done
   \<and> task_dateCreated report_done = task_dateCreated report
   \<and> map fst (tasks db_done) = map fst (tasks db0)"
proof -
  have run: "task_put env0 t1 finish_it db0 =
      (Json 200 ''Task updated successfully'' (TaskDoc t1 report_done), db_done)"
    by (simp add: route_defs ex_defs)
  from C10_task_put_frame[OF run] run show ?thesis
    by (simp add: ex_defs)
qed

theorem C5_cascades_witness:
  "user_delete env0 u2 db0 = (Json 200 ''User deleted successfully'' EmptyObject, db_without_bob)
   \<and> tasks db_without_bob = [(t1, report\<lparr>assignedUser := [], assignedUserName := ''unassigned''\<rparr>)]
   \<and> task_delete env0 t1 db_two = (Send 204, db_two_without_t1)
   \<and> map_of (tasks db_two) (canonical env0 t1) = Some report
   \<and> assignedUser report = u2 \<and> \<not> completed report
   \<and> map_of (users db_two) u2 = Some (bob\<lparr>pendingTasks := [t2, t1]\<rparr>)
   \<and> map_of (users db_two_without_t1) u2 = Some (bob\<lparr>pendingTasks := [t2]\<rparr>)"
proof -
  have run1: "user_delete env0 u2 db0 = (Json 200 ''User deleted successfully'' EmptyObject, db_without_bob)"
    by (simp add: route_defs ex_defs)
  have run2: "task_delete env0 t1 db_two = (Send 204, db_two_without_t1)"
    by (simp add: route_defs ex_defs)
  from C5_cascades[where e = env0 and i = u2 and d = db0 and m = "''User deleted successfully''"
        and dat = EmptyObject and d' = db_without_bob]
       C5_cascades[where e = env0 and d = db_two and j = t1 and d'' = db_two_without_t1 and t = report]
    run1 run2
  show ?thesis
    by (simp add: ex_defs)
qed

section \<open>Replacing a user\<close>

lemma set_new_Set_aux: "set (foldl (\<lambda>acc x. addToSet x acc) acc xs) = set acc \<union> set xs"
  by (induction xs arbitrary: acc) (auto simp: set_addToSet)

lemma set_new_Set: "set (new_Set xs) = set xs"
  by (simp add: new_Set_def set_new_Set_aux)

lemma distinct_new_Set_aux: "distinct acc \<Longrightarrow> distinct (foldl (\<lambda>acc x. addToSet x acc) acc xs)"
  by (induction xs arbitrary: acc) (auto simp: distinct_addToSet)

lemma distinct_new_Set: "distinct (new_Set xs)"
  by (simp add: new_Set_def distinct_new_Set_aux)

lemma map_ran_id: "(\<And>k v. (k, v) \<in> set xs \<Longrightarrow> f k v = v) \<Longrightarrow> AList.map_ran f xs = xs"
  by (induction xs) (auto simp: map_ran_def)

lemma cond_updateMany:
  assumes "(if ids \<noteq> [] then updateMany_tasks e c (Some ids) q f d else Inr d) = Inr d'"
  shows "users d' = users d \<and>
         tasks d' = AList.map_ran (\<lambda>k t. if k \<in> canonical e ` set ids \<and> q t then f t else t) (tasks d)"
proof (cases "ids = []")
  case True
  have "AList.map_ran (\<lambda>k t. if k \<in> canonical e ` set ids \<and> q t then f t else t) (tasks d) = tasks d"
    by (intro map_ran_id) (simp add: True)
  with True assms show ?thesis by simp
next
  case False
  with assms show ?thesis by (simp add: updateMany_tasks_Inr selected_def)
qed

lemma user_put_200:
  assumes "user_put e i body d = (Json 200 m dat, d')"
  shows "\<exists>u0 u. map_of (users d) (canonical e i) = Some u0 \<and>
           truthy_str (ub_name body) \<and> truthy_str (ub_email body) \<and>
           u = u0\<lparr>user_name := or_empty (ub_name body), email := or_empty (ub_email body),
                  pendingTasks := new_Set (case ub_pendingTasks body of None \<Rightarrow> [] | Some ps \<Rightarrow> ps)\<rparr> \<and>
           dat = UserDoc (canonical e i) u \<and>
           users d' = AList.map_entry (canonical e i) (\<lambda>_. u) (users d) \<and>
           tasks d' =
             AList.map_ran
               (\<lambda>k t. if k \<in> canonical e ` {x \<in> set (pendingTasks u). x \<notin> set (pendingTasks u0)}
                       then assign_to (canonical e i) (user_name u) t else t)
               (AList.map_ran
                  (\<lambda>k t. if k \<in> canonical e ` {x \<in> set (pendingTasks u0). x \<notin> set (pendingTasks u)} \<and>
                             assignedUser t = canonical e i
                          then unassign t else t) (tasks d))"
proof -
  from assms obtain u0 where f: "findById e (UsersJs 108) (users d) i = Inr (Some u0)"
    and nm: "truthy_str (ub_name body)" "truthy_str (ub_email body)"
    by (auto simp: user_put_def user_put_catch_not_200 split: sum.splits option.splits if_splits)
  let ?k = "canonical e i"
  let ?newP = "new_Set (case ub_pendingTasks body of None \<Rightarrow> [] | Some ps \<Rightarrow> ps)"
  let ?oldP = "new_Set (pendingTasks u0)"
  let ?u = "u0\<lparr>user_name := or_empty (ub_name body), email := or_empty (ub_email body),
                  pendingTasks := ?newP\<rparr>"
  let ?removed = "filter (\<lambda>k. k \<notin> set ?newP) ?oldP"
  let ?added = "filter (\<lambda>k. k \<notin> set ?oldP) ?newP"
  let ?R = "\<lambda>d1. (if ?removed \<noteq> [] then updateMany_tasks e (UsersJs 136) (Some ?removed)
            (\<lambda>t. assignedUser t = ?k) unassign d1 else Inr d1)"
  let ?A = "\<lambda>d2. (if ?added \<noteq> [] then updateMany_tasks e (UsersJs 145) (Some ?added)
            (\<lambda>_. True) (assign_to ?k (user_name ?u)) d2 else Inr d2)"
  have A: "(case save_user e (UsersJs 130) ?k ?u d of
              Inl x \<Rightarrow> (user_put_catch x, d)
            | Inr d1 \<Rightarrow>
                (case ?R d1 of
                   Inl x \<Rightarrow> (user_put_catch x, d1)
                 | Inr d2 \<Rightarrow>
                     (case ?A d2 of
                        Inl x \<Rightarrow> (user_put_catch x, d2)
                      | Inr d3 \<Rightarrow> (Json 200 ''User updated successfully'' (UserDoc ?k ?u), d3))))
           = (Json 200 m dat, d')"
    using assms unfolding user_put_def Let_def f using nm by simp
  then obtain d1 where sv: "save_user e (UsersJs 130) ?k ?u d = Inr d1"
    by (cases "save_user e (UsersJs 130) ?k ?u d") (simp_all add: user_put_catch_not_200)
  from A obtain d2 where r: "?R d1 = Inr d2"
    unfolding sv by (cases "?R d1") (simp_all add: user_put_catch_not_200)
  from A have a: "?A d2 = Inr d'" and dat: "dat = UserDoc ?k ?u"
    unfolding sv sum.case r by (cases "?A d2"; simp add: user_put_catch_not_200)+
  from f have u0: "map_of (users d) ?k = Some u0" by (simp add: findById_Inr)
  from sv have d1: "users d1 = AList.map_entry ?k (\<lambda>_. ?u) (users d)" "tasks d1 = tasks d"
    by (simp_all add: save_user_Inr)
  from cond_updateMany[OF r] have d2: "users d2 = users d1"
    "tasks d2 = AList.map_ran (\<lambda>k t. if k \<in> canonical e ` set ?removed \<and> assignedUser t = ?k
                                      then unassign t else t) (tasks d1)"
    by simp_all
  from cond_updateMany[OF a] have d3: "users d' = users d2"
    "tasks d' = AList.map_ran (\<lambda>k t. if k \<in> canonical e ` set ?added \<and> True
                                      then assign_to ?k (user_name ?u) t else t) (tasks d2)"
    by simp_all
  have sets: "set ?removed = {x \<in> set (pendingTasks u0). x \<notin> set (pendingTasks ?u)}"
    "set ?added = {x \<in> set (pendingTasks ?u). x \<notin> set (pendingTasks u0)}"
    by (auto simp: set_new_Set)
  show ?thesis
    using u0 nm dat d1 d2 d3 unfolding sets
    by (intro exI[of _ u0] exI[of _ ?u]) simp
qed

text \<open>
  Claim C4. After a PUT /api/users/:id that succeeded with a list of pending tasks in the
  body, the tasks are the old tasks after two updates, in this order. First, for the ids
  that were in the user's pending tasks and are not in the new list: the task of such an
  id loses its assignee, and gets the assignee name "unassigned", only if it is assigned
  to this user. Then, for the ids that are in the new list and were not in the user's
  pending tasks: the task of such an id gets this user as assignee and this user's (new)
  name as assignee name, whoever it was assigned to. The task of an id is the one whose
  \<open>_id\<close> is the ObjectId that the id is cast to; no other task changes. The user's pending
  tasks are the new list as a set.
\<close>

theorem C4_user_put_symmetric_difference:
  assumes ok: "user_put e i body d = (Json 200 m dat, d')"
      and u0: "map_of (users d) (canonical e i) = Some u0"
      and ps: "ub_pendingTasks body = Some ps"
  shows "\<exists>nm. ub_name body = Some nm \<and>
           tasks d' =
             map (\<lambda>(k, t). (k,
                    if k \<in> canonical e ` {x \<in> set ps. x \<notin> set (pendingTasks u0)}
                    then t\<lparr>assignedUser := canonical e i, assignedUserName := nm\<rparr>
                    else t))
               (map (\<lambda>(k, t). (k,
                       if k \<in> canonical e ` {x \<in> set (pendingTasks u0). x \<notin> set ps} \<and>
                          assignedUser t = canonical e i
                       then t\<lparr>assignedUser := [], assignedUserName := ''unassigned''\<rparr>
                       else t)) (tasks d))
         \<and> (\<exists>u. dat = UserDoc (canonical e i) u \<and> map_of (users d') (canonical e i) = Some u \<and>
                  user_name u = nm \<and> set (pendingTasks u) = set ps \<and> distinct (pendingTasks u))"
proof -
  from user_put_200[OF ok] u0 ps obtain u where
    tn: "truthy_str (ub_name body)" and
    u: "u = u0\<lparr>user_name := or_empty (ub_name body), email := or_empty (ub_email body),
                pendingTasks := new_Set ps\<rparr>" and
    dat: "dat = UserDoc (canonical e i) u" and
    us: "users d' = AList.map_entry (canonical e i) (\<lambda>_. u) (users d)" and
    ts: "tasks d' =
             AList.map_ran
               (\<lambda>k t. if k \<in> canonical e ` {x \<in> set (pendingTasks u). x \<notin> set (pendingTasks u0)}
                       then assign_to (canonical e i) (user_name u) t else t)
               (AList.map_ran
                  (\<lambda>k t. if k \<in> canonical e ` {x \<in> set (pendingTasks u0). x \<notin> set (pendingTasks u)} \<and>
                             assignedUser t = canonical e i
                          then unassign t else t) (tasks d))"
    by auto
  from tn obtain nm where nm: "ub_name body = Some nm"
    by (auto simp: truthy_str_def split: option.splits)
  have pu: "set (pendingTasks u) = set ps" by (simp add: u set_new_Set)
  have 1: "tasks d' =
             map (\<lambda>(k, t). (k,
                    if k \<in> canonical e ` {x \<in> set ps. x \<notin> set (pendingTasks u0)}
                    then t\<lparr>assignedUser := canonical e i, assignedUserName := nm\<rparr>
                    else t))
               (map (\<lambda>(k, t). (k,
                       if k \<in> canonical e ` {x \<in> set (pendingTasks u0). x \<notin> set ps} \<and>
                          assignedUser t = canonical e i
                       then t\<lparr>assignedUser := [], assignedUserName := ''unassigned''\<rparr>
                       else t)) (tasks d))"
    unfolding ts pu by (simp add: map_ran_def u nm or_empty_def unassign_def assign_to_def case_prod_beta)
  have 2: "map_of (users d') (canonical e i) = Some u"
    using u0 by (simp add: us map_of_map_entry)
  have 3: "user_name u = nm" "distinct (pendingTasks u)"
    by (simp_all add: u nm or_empty_def distinct_new_Set)
  from nm 1 2 3 pu dat show ?thesis by blast
qed

theorem C4_user_put_symmetric_difference_witness:
  "user_put env0 u1 claim_t1 db0 =
     (Json 200 ''User updated successfully'' (UserDoc u1 (alice\<lparr>pendingTasks := [t1]\<rparr>)), db_claimed)
   \<and> map_of (users db0) (canonical env0 u1) = Some alice \<and> ub_pendingTasks claim_t1 = Some [t1]
   \<and> tasks db_claimed = [(t1, report\<lparr>assignedUser := u1, assignedUserName := ''Alice''\<rparr>)]
   \<and> user_put env0 u2 release_all db0 =
     (Json 200 ''User updated successfully'' (UserDoc u2 (bob\<lparr>pendingTasks := []\<rparr>)), db_released)
   \<and> map_of (users db0) (canonical env0 u2) = Some bob \<and> ub_pendingTasks release_all = Some []
   \<and> tasks db_released = [(t1, report\<lparr>assignedUser := [], assignedUserName := ''unassigned''\<rparr>)]
   \<and> user_put env0 u1 claim_t1_upper db0 =
     (Json 200 ''User updated successfully'' (UserDoc u1 (alice\<lparr>pendingTasks := [t1_upper]\<rparr>)),
      db_claimed_upper)
   \<and> ub_pendingTasks claim_t1_upper = Some [t1_upper] \<and> canonical env0 t1_upper = t1
   \<and> tasks db_claimed_upper = [(t1, report\<lparr>assignedUser := u1, assignedUserName := ''Alice''\<rparr>)]"
proof -
  have run1: "user_put env0 u1 claim_t1 db0 =
     (Json 200 ''User updated successfully'' (UserDoc u1 (alice\<lparr>pendingTasks := [t1]\<rparr>)), db_claimed)"
    by (simp add: route_defs ex_defs)
  have run2: "user_put env0 u2 release_all db0 =
     (Json 200 ''User updated successfully'' (UserDoc u2 (bob\<lparr>pendingTasks := []\<rparr>)), db_released)"
    by (simp add: route_defs ex_defs)
  have run3: "user_put env0 u1 claim_t1_upper db0 =
     (Json 200 ''User updated successfully'' (UserDoc u1 (alice\<lparr>pendingTasks := [t1_upper]\<rparr>)),
      db_claimed_upper)"
    by (simp add: route_defs ex_defs)
  have a: "map_of (users db0) (canonical env0 u1) = Some alice" "ub_pendingTasks claim_t1 = Some [t1]"
    by (simp_all add: ex_defs)
  have b: "map_of (users db0) (canonical env0 u2) = Some bob" "ub_pendingTasks release_all = Some []"
    by (simp_all add: ex_defs)
  have c: "ub_pendingTasks claim_t1_upper = Some [t1_upper]" "canonical env0 t1_upper = t1"
    by (simp_all add: ex_defs)
  from C4_user_put_symmetric_difference[OF run1 a]
       C4_user_put_symmetric_difference[OF run2 b]
       C4_user_put_symmetric_difference[OF run3 a(1) c(1)]
       run1 run2 run3 a b c
  show ?thesis
    by (simp add: ex_defs)
qed

lemma tasks_post_201:
  assumes "tasks_post e newId now body d = (Json 201 m dat, d')"
  shows "\<exists>au aun t. resolve_assignee e d (b_assignedUser body) = Inr (au, aun) \<and>
           t = \<lparr>task_name = b_name body, description = or_empty (b_description body),
                deadline = b_deadline body, completed = truthy_bool (b_completed body),
                assignedUser = au, assignedUserName = aun, task_dateCreated = now\<rparr> \<and>
           dat = TaskDoc newId t \<and> taskSchemaValid e t \<and> map_of (tasks d) newId = None \<and>
           tasks d' = tasks d @ [(newId, t)] \<and>
           users d' = (if au \<noteq> [] \<and> \<not> completed t
                       then AList.map_entry au (add_pending newId) (users d) else users d)"
proof -
  from assms obtain t where
    dat: "dat = TaskDoc newId t" and txn: "tasks_post_txn e newId now body d = Inr ((newId, t), d')"
    by (auto simp: tasks_post_def withTransaction_def tasks_post_txn_def bind_err_Inr Let_def
             split: sum.splits prod.splits err.splits)
  from txn obtain au aun d1 where
    ra: "resolve_assignee e d (b_assignedUser body) = Inr (au, aun)" and
    t: "t = \<lparr>task_name = b_name body, description = or_empty (b_description body),
                deadline = b_deadline body, completed = truthy_bool (b_completed body),
                assignedUser = au, assignedUserName = aun, task_dateCreated = now\<rparr>" and
    ins: "insert_task e (TasksJs 112) newId t d = Inr d1" and
    st: "(if au \<noteq> [] \<and> \<not> truthy_bool (b_completed body)
          then findByIdAndUpdate e (TasksJs 116) au (add_pending newId) d1 else Inr d1) = Inr d'"
    by (auto simp: tasks_post_txn_def bind_err_Inr Let_def cong: if_cong split: prod.splits)
  from ins have i: "taskSchemaValid e t" "map_of (tasks d) newId = None"
    "d1 = d\<lparr>tasks := tasks d @ [(newId, t)]\<rparr>"
    by (simp_all add: insert_task_Inr)
  from update_step[OF st] i(3) t have
    "tasks d' = tasks d @ [(newId, t)]"
    "users d' = (if au \<noteq> [] \<and> \<not> completed t
                       then AList.map_entry au (add_pending newId) (users d) else users d)"
    by simp_all
  with ra t dat i show ?thesis by blast
qed

section \<open>The assignee of a task\<close>

lemma wsLength_Nil: "wsLength ws [] = 0"
proof -
  have "find (\<lambda>w. w \<noteq> [] \<and> take (length w) [] = w) ws = None"
    by (auto simp: find_None_iff)
  then show ?thesis by (simp add: wsLength_def)
qed

lemma dropWhiteSpace_Nil: "dropWhiteSpace ws [] = []"
  by (subst dropWhiteSpace.simps) (simp add: wsLength_Nil)

lemma trim_Nil: "trim [] = []"
  by (simp add: trim_def dropWhiteSpace_Nil)

lemma wsLength_0:
  assumes "s \<noteq> []" and "hd s \<notin> hd ` set ws"
  shows "wsLength ws s = 0"
proof -
  have "\<not> (w \<noteq> [] \<and> take (length w) s = w)" if w: "w \<in> set ws" for w
  proof
    assume h: "w \<noteq> [] \<and> take (length w) s = w"
    then have "hd (take (length w) s) = hd s" by (cases w; cases s; simp)
    with h have "hd w = hd s" by simp
    moreover from w have "hd w \<in> hd ` set ws" by (rule imageI)
    ultimately show False using assms(2) by simp
  qed
  then have "find (\<lambda>w. w \<noteq> [] \<and> take (length w) s = w) ws = None"
    by (simp add: find_None_iff)
  then show ?thesis by (simp add: wsLength_def)
qed

lemma dropWhiteSpace_none:
  assumes "s \<noteq> []" and "hd s \<notin> hd ` set ws"
  shows "dropWhiteSpace ws s = s"
  by (subst dropWhiteSpace.simps) (simp add: wsLength_0[OF assms])

lemma trim_no_white_space:
  assumes "s \<noteq> []" and "hd s \<notin> hd ` set whiteSpaces" and "last s \<notin> last ` set whiteSpaces"
  shows "trim s = s"
proof -
  have "hd ` set (map rev whiteSpaces) = last ` set whiteSpaces"
    by (simp add: whiteSpaces_def)
  with assms have "dropWhiteSpace (map rev whiteSpaces) (rev s) = rev s"
    by (intro dropWhiteSpace_none) (simp_all add: hd_rev)
  with assms show ?thesis by (simp add: trim_def dropWhiteSpace_none)
qed

lemma wsLength_single:
  assumes "[c] \<in> set ws" and "\<And>w. w \<in> set ws \<Longrightarrow> w \<noteq> [] \<Longrightarrow> hd w = c \<Longrightarrow> w = [c]"
  shows "wsLength ws (c # s) = 1"
proof (cases "find (\<lambda>w. w \<noteq> [] \<and> take (length w) (c # s) = w) ws")
  case None
  with assms(1) have "\<not> ([c] \<noteq> [] \<and> take (length [c]) (c # s) = [c])"
    unfolding find_None_iff by blast
  then show ?thesis by simp
next
  case (Some w)
  then have w: "w \<in> set ws" "w \<noteq> []" "take (length w) (c # s) = w"
    by (auto simp: find_Some_iff)
  from w(2,3) have "hd w = c" by (cases w) auto
  with w assms(2) have "w = [c]" by blast
  with Some show ?thesis by (simp add: wsLength_def)
qed

lemma dropWhiteSpace_blank:
  "set s \<subseteq> {CHR 0x09, CHR 0x0A, CHR 0x0B, CHR 0x0C, CHR 0x0D, CHR 0x20} \<Longrightarrow>
   dropWhiteSpace whiteSpaces s = []"
proof (induction s)
  case Nil
  show ?case by (rule dropWhiteSpace_Nil)
next
  case (Cons c s)
  then have "c \<in> {CHR 0x09, CHR 0x0A, CHR 0x0B, CHR 0x0C, CHR 0x0D, CHR 0x20}" by simp
  then have "wsLength whiteSpaces (c # s) = 1"
    by (intro wsLength_single) (auto simp: whiteSpaces_def)
  with Cons show ?case by (subst dropWhiteSpace.simps) simp
qed

lemma trim_blank:
  "set s \<subseteq> {CHR 0x09, CHR 0x0A, CHR 0x0B, CHR 0x0C, CHR 0x0D, CHR 0x20} \<Longrightarrow> trim s = []"
  by (simp add: trim_def dropWhiteSpace_blank dropWhiteSpace_Nil)

lemma resolve_assignee_blank:
  assumes "a = None \<or> (\<exists>s. a = Some s \<and> trim s = [])"
  shows "resolve_assignee e d a = Inr ([], ''unassigned'')"
  using assms by (auto simp: resolve_assignee_def)

text \<open>
  Claim C6, with blank identifiers taken into account. \<open>ensureUserExists\<close> returns no
  assignee, and no error, for an absent or empty identifier; it fails with the status
  400 error "assignedUser must be a valid ObjectId" for a non-empty identifier that is
  not a valid ObjectId, and with the status 400 error "assignedUser not found" for a
  valid one whose ObjectId no user has; otherwise it returns the \<open>_id\<close> and the name of
  the user in the store. POST /api/tasks and PUT /api/tasks/:id call it only for an
  identifier that is not blank, that is, one that \<open>trim\<close> does not reduce to the empty
  string; they answer its error with HTTP 400 and its message and write nothing. For an
  absent, empty or blank identifier they do what they do for an absent one: the task
  they write has no assignee and the assignee name "unassigned", and POST creates that
  task whenever the schema accepts it. A string of ASCII blanks is blank, and \<open>trim\<close>
  leaves a string alone that neither starts nor ends with a byte of a white space. The
  \<open>assignedUserName\<close> of the task the routes write is "unassigned" or the name that the
  assignee has in the store, and the \<open>assignedUserName\<close> of the request body has no
  influence on what they do.
\<close>

theorem C6_reference_validation:
  "((a = None \<or> a = Some []) \<longrightarrow> ensureUserExists e d a = Inr None)
   \<and> (s1 \<noteq> [] \<and> \<not> isValidObjectId e s1 \<longrightarrow>
        ensureUserExists e d (Some s1) = Inl (Status400 ''assignedUser must be a valid ObjectId''))
   \<and> (s2 \<noteq> [] \<and> isValidObjectId e s2 \<and> rejects e (TasksJs 34) = None \<and>
      map_of (users d) (canonical e s2) = None \<longrightarrow>
        ensureUserExists e d (Some s2) = Inl (Status400 ''assignedUser not found''))
   \<and> (s3 \<noteq> [] \<and> isValidObjectId e s3 \<and> rejects e (TasksJs 34) = None \<and>
      map_of (users d) (canonical e s3) = Some u \<longrightarrow>
        ensureUserExists e d (Some s3) = Inr (Some (canonical e s3, user_name u)))
   \<and> (b_assignedUser body = Some s4 \<and> trim s4 \<noteq> [] \<and>
      ensureUserExists e d (Some s4) = Inl (Status400 msg) \<longrightarrow>
        tasks_post e newId now body d = (Json 400 msg EmptyObject, d) \<and>
        (\<forall>t0. isValidObjectId e i \<and> rejects e (TasksJs 163) = None \<and>
              map_of (tasks d) (canonical e i) = Some t0 \<longrightarrow>
           task_put e i body d = (Json 400 msg EmptyObject, d)))
   \<and> (b_assignedUser body3 = None \<or> (\<exists>s. b_assignedUser body3 = Some s \<and> trim s = []) \<longrightarrow>
        tasks_post e newId now body3 d = tasks_post e newId now (body3\<lparr>b_assignedUser := None\<rparr>) d \<and>
        task_put e i body3 d = task_put e i (body3\<lparr>b_assignedUser := None\<rparr>) d \<and>
        (\<forall>m k r d'. tasks_post e newId now body3 d = (Json 201 m (TaskDoc k r), d') \<or>
                    task_put e i body3 d = (Json 200 m (TaskDoc k r), d') \<longrightarrow>
           assignedUser r = [] \<and> assignedUserName r = ''unassigned'') \<and>
        (t3 = \<lparr>task_name = b_name body3, description = or_empty (b_description body3),
               deadline = b_deadline body3, completed = truthy_bool (b_completed body3),
               assignedUser = [], assignedUserName = ''unassigned'', task_dateCreated = now\<rparr> \<and>
         taskSchemaValid e t3 \<and> map_of (tasks d) newId = None \<and> rejects e (TasksJs 112) = None \<longrightarrow>
           tasks_post e newId now body3 d =
             (Json 201 ''Task created successfully'' (TaskDoc newId t3),
              d\<lparr>tasks := tasks d @ [(newId, t3)]\<rparr>)))
   \<and> (set s5 \<subseteq> {CHR 0x09, CHR 0x0A, CHR 0x0B, CHR 0x0C, CHR 0x0D, CHR 0x20} \<longrightarrow> trim s5 = [])
   \<and> (s6 \<noteq> [] \<and> hd s6 \<notin> hd ` set whiteSpaces \<and> last s6 \<notin> last ` set whiteSpaces \<longrightarrow> trim s6 = s6)
   \<and> (tasks_post e newId now body1 d = (Json 201 m1 (TaskDoc k1 r1), d1) \<or>
      task_put e i body1 d = (Json 200 m1 (TaskDoc k1 r1), d1) \<longrightarrow>
        (assignedUser r1 = [] \<and> assignedUserName r1 = ''unassigned'') \<or>
        (\<exists>u. map_of (users d) (assignedUser r1) = Some u \<and> assignedUserName r1 = user_name u))
   \<and> tasks_post e newId now (body2\<lparr>b_assignedUserName := x\<rparr>) d = tasks_post e newId now body2 d
   \<and> task_put e i (body2\<lparr>b_assignedUserName := x\<rparr>) d = task_put e i body2 d"
proof -
  have 1: "(a = None \<or> a = Some []) \<longrightarrow> ensureUserExists e d a = Inr None"
    by (auto simp: ensureUserExists_def)
  have 2: "s1 \<noteq> [] \<and> \<not> isValidObjectId e s1 \<longrightarrow>
        ensureUserExists e d (Some s1) = Inl (Status400 ''assignedUser must be a valid ObjectId'')"
    by (simp add: ensureUserExists_def)
  have 3: "s2 \<noteq> [] \<and> isValidObjectId e s2 \<and> rejects e (TasksJs 34) = None \<and>
      map_of (users d) (canonical e s2) = None \<longrightarrow>
        ensureUserExists e d (Some s2) = Inl (Status400 ''assignedUser not found'')"
    by (simp add: ensureUserExists_def findById_def awaited_def bind_err_def)
  have 4: "s3 \<noteq> [] \<and> isValidObjectId e s3 \<and> rejects e (TasksJs 34) = None \<and>
      map_of (users d) (canonical e s3) = Some u \<longrightarrow>
        ensureUserExists e d (Some s3) = Inr (Some (canonical e s3, user_name u))"
    by (simp add: ensureUserExists_def findById_def awaited_def bind_err_def)
  have 5: "b_assignedUser body = Some s4 \<and> trim s4 \<noteq> [] \<and>
      ensureUserExists e d (Some s4) = Inl (Status400 msg) \<longrightarrow>
        tasks_post e newId now body d = (Json 400 msg EmptyObject, d) \<and>
        (\<forall>t0. isValidObjectId e i \<and> rejects e (TasksJs 163) = None \<and>
              map_of (tasks d) (canonical e i) = Some t0 \<longrightarrow>
           task_put e i body d = (Json 400 msg EmptyObject, d))"
  proof (intro impI)
    assume h: "b_assignedUser body = Some s4 \<and> trim s4 \<noteq> [] \<and>
      ensureUserExists e d (Some s4) = Inl (Status400 msg)"
    then have "s4 \<noteq> []" by (auto simp: trim_Nil)
    with h have ra: "resolve_assignee e d (b_assignedUser body) = Inl (Status400 msg)"
      by (simp add: resolve_assignee_def bind_err_def)
    show "tasks_post e newId now body d = (Json 400 msg EmptyObject, d) \<and>
        (\<forall>t0. isValidObjectId e i \<and> rejects e (TasksJs 163) = None \<and>
              map_of (tasks d) (canonical e i) = Some t0 \<longrightarrow>
           task_put e i body d = (Json 400 msg EmptyObject, d))"
      by (simp add: tasks_post_def tasks_post_txn_def task_put_def task_put_txn_def withTransaction_def
            ra bind_err_def findById_def awaited_def)
  qed
  have 6: "b_assignedUser body3 = None \<or> (\<exists>s. b_assignedUser body3 = Some s \<and> trim s = []) \<longrightarrow>
        tasks_post e newId now body3 d = tasks_post e newId now (body3\<lparr>b_assignedUser := None\<rparr>) d \<and>
        task_put e i body3 d = task_put e i (body3\<lparr>b_assignedUser := None\<rparr>) d \<and>
        (\<forall>m k r d'. tasks_post e newId now body3 d = (Json 201 m (TaskDoc k r), d') \<or>
                    task_put e i body3 d = (Json 200 m (TaskDoc k r), d') \<longrightarrow>
           assignedUser r = [] \<and> assignedUserName r = ''unassigned'') \<and>
        (t3 = \<lparr>task_name = b_name body3, description = or_empty (b_description body3),
               deadline = b_deadline body3, completed = truthy_bool (b_completed body3),
               assignedUser = [], assignedUserName = ''unassigned'', task_dateCreated = now\<rparr> \<and>
         taskSchemaValid e t3 \<and> map_of (tasks d) newId = None \<and> rejects e (TasksJs 112) = None \<longrightarrow>
           tasks_post e newId now body3 d =
             (Json 201 ''Task created successfully'' (TaskDoc newId t3),
              d\<lparr>tasks := tasks d @ [(newId, t3)]\<rparr>))"
  proof (intro impI)
    assume "b_assignedUser body3 = None \<or> (\<exists>s. b_assignedUser body3 = Some s \<and> trim s = [])"
    then have ra: "resolve_assignee e d (b_assignedUser body3) = Inr ([], ''unassigned'')"
      by (rule resolve_assignee_blank)
    have rn: "resolve_assignee e d None = Inr ([], ''unassigned'')"
      by (simp add: resolve_assignee_blank)
    have a: "tasks_post e newId now body3 d = tasks_post e newId now (body3\<lparr>b_assignedUser := None\<rparr>) d"
      by (simp add: tasks_post_def tasks_post_txn_def withTransaction_def ra rn)
    have eq: "task_put_txn e i body3 d = task_put_txn e i (body3\<lparr>b_assignedUser := None\<rparr>) d"
      by (simp add: task_put_txn_def ra rn cong: option.case_cong)
    have b: "task_put e i body3 d = task_put e i (body3\<lparr>b_assignedUser := None\<rparr>) d"
      by (simp only: task_put_def withTransaction_def eq)
    have c: "assignedUser r = [] \<and> assignedUserName r = ''unassigned''"
      if h: "tasks_post e newId now body3 d = (Json 201 m (TaskDoc k r), d') \<or>
             task_put e i body3 d = (Json 200 m (TaskDoc k r), d')" for m k r d'
      using h
    proof
      assume "tasks_post e newId now body3 d = (Json 201 m (TaskDoc k r), d')"
      from tasks_post_201[OF this] ra show ?thesis by auto
    next
      assume "task_put e i body3 d = (Json 200 m (TaskDoc k r), d')"
      from task_put_200[OF this] have txn: "task_put_txn e i body3 d = Inr (Updated k r, d')" by simp
      from task_put_txn_found[OF txn] obtain t0 where t0: "map_of (tasks d) k = Some t0" ..
      from task_put_txn_eqs[OF txn t0] ra show ?thesis by auto
    qed
    have d: "tasks_post e newId now body3 d =
             (Json 201 ''Task created successfully'' (TaskDoc newId t3),
              d\<lparr>tasks := tasks d @ [(newId, t3)]\<rparr>)"
      if "t3 = \<lparr>task_name = b_name body3, description = or_empty (b_description body3),
               deadline = b_deadline body3, completed = truthy_bool (b_completed body3),
               assignedUser = [], assignedUserName = ''unassigned'', task_dateCreated = now\<rparr> \<and>
         taskSchemaValid e t3 \<and> map_of (tasks d) newId = None \<and> rejects e (TasksJs 112) = None"
    proof -
      from that have t3: "t3 = \<lparr>task_name = b_name body3, description = or_empty (b_description body3),
               deadline = b_deadline body3, completed = truthy_bool (b_completed body3),
               assignedUser = [], assignedUserName = ''unassigned'', task_dateCreated = now\<rparr>"
        by (rule conjunct1)
      from that have v: "taskSchemaValid e t3" "map_of (tasks d) newId = None"
        "rejects e (TasksJs 112) = None"
        by (rule conjunct2[THEN conjunct1], rule conjunct2[THEN conjunct2, THEN conjunct1],
            rule conjunct2[THEN conjunct2, THEN conjunct2])
      have "tasks_post_txn e newId now body3 d = Inr ((newId, t3), d\<lparr>tasks := tasks d @ [(newId, t3)]\<rparr>)"
        using v unfolding t3
        by (simp add: tasks_post_txn_def ra bind_err_def insert_task_def awaited_def Let_def)
      then show ?thesis
        by (simp add: tasks_post_def withTransaction_def)
    qed
    from a b c d show "tasks_post e newId now body3 d = tasks_post e newId now (body3\<lparr>b_assignedUser := None\<rparr>) d \<and>
        task_put e i body3 d = task_put e i (body3\<lparr>b_assignedUser := None\<rparr>) d \<and>
        (\<forall>m k r d'. tasks_post e newId now body3 d = (Json 201 m (TaskDoc k r), d') \<or>
                    task_put e i body3 d = (Json 200 m (TaskDoc k r), d') \<longrightarrow>
           assignedUser r = [] \<and> assignedUserName r = ''unassigned'') \<and>
        (t3 = \<lparr>task_name = b_name body3, description = or_empty (b_description body3),
               deadline = b_deadline body3, completed = truthy_bool (b_completed body3),
               assignedUser = [], assignedUserName = ''unassigned'', task_dateCreated = now\<rparr> \<and>
         taskSchemaValid e t3 \<and> map_of (tasks d) newId = None \<and> rejects e (TasksJs 112) = None \<longrightarrow>
           tasks_post e newId now body3 d =
             (Json 201 ''Task created successfully'' (TaskDoc newId t3),
              d\<lparr>tasks := tasks d @ [(newId, t3)]\<rparr>))"
      by blast
  qed
  have 7: "set s5 \<subseteq> {CHR 0x09, CHR 0x0A, CHR 0x0B, CHR 0x0C, CHR 0x0D, CHR 0x20} \<longrightarrow> trim s5 = []"
    by (simp add: trim_blank)
  have 8: "s6 \<noteq> [] \<and> hd s6 \<notin> hd ` set whiteSpaces \<and> last s6 \<notin> last ` set whiteSpaces \<longrightarrow> trim s6 = s6"
    by (simp add: trim_no_white_space)
  have 9: "tasks_post e newId now body1 d = (Json 201 m1 (TaskDoc k1 r1), d1) \<or>
      task_put e i body1 d = (Json 200 m1 (TaskDoc k1 r1), d1) \<longrightarrow>
        (assignedUser r1 = [] \<and> assignedUserName r1 = ''unassigned'') \<or>
        (\<exists>u. map_of (users d) (assignedUser r1) = Some u \<and> assignedUserName r1 = user_name u)"
  proof (intro impI, elim disjE)
    assume "tasks_post e newId now body1 d = (Json 201 m1 (TaskDoc k1 r1), d1)"
    from tasks_post_201[OF this] obtain au aun where
      "resolve_assignee e d (b_assignedUser body1) = Inr (au, aun)"
      "assignedUser r1 = au" "assignedUserName r1 = aun" by auto
    with resolve_assignee_Inr[of e d "b_assignedUser body1" au aun]
    show "(assignedUser r1 = [] \<and> assignedUserName r1 = ''unassigned'') \<or>
        (\<exists>u. map_of (users d) (assignedUser r1) = Some u \<and> assignedUserName r1 = user_name u)"
      by auto
  next
    assume ok: "task_put e i body1 d = (Json 200 m1 (TaskDoc k1 r1), d1)"
    from task_put_200[OF ok] have txn: "task_put_txn e i body1 d = Inr (Updated k1 r1, d1)" by simp
    from task_put_txn_found[OF txn] obtain t0 where t0: "map_of (tasks d) k1 = Some t0" ..
    from task_put_txn_eqs[OF txn t0] obtain au aun where
      "resolve_assignee e d (b_assignedUser body1) = Inr (au, aun)"
      "assignedUser r1 = au" "assignedUserName r1 = aun" by auto
    with resolve_assignee_Inr[of e d "b_assignedUser body1" au aun]
    show "(assignedUser r1 = [] \<and> assignedUserName r1 = ''unassigned'') \<or>
        (\<exists>u. map_of (users d) (assignedUser r1) = Some u \<and> assignedUserName r1 = user_name u)"
      by auto
  qed
  have 10: "tasks_post e newId now (body2\<lparr>b_assignedUserName := x\<rparr>) d = tasks_post e newId now body2 d"
    by (simp add: tasks_post_def tasks_post_txn_def withTransaction_def)
  have 11: "task_put e i (body2\<lparr>b_assignedUserName := x\<rparr>) d = task_put e i body2 d"
    by (simp add: task_put_def task_put_txn_def withTransaction_def Let_def cong: option.case_cong if_cong)
  from 1 2 3 4 5 6 7 8 9 10 11 show ?thesis by (intro conjI)
qed

theorem C6_reference_validation_witness:
  "ensureUserExists env0 db0 None = Inr None
   \<and> ''not-an-id'' \<noteq> [] \<and> \<not> isValidObjectId env0 ''not-an-id''
   \<and> ensureUserExists env0 db0 (Some ''not-an-id'') = Inl (Status400 ''assignedUser must be a valid ObjectId'')
   \<and> t1 \<noteq> [] \<and> isValidObjectId env0 t1 \<and> rejects env0 (TasksJs 34) = None
   \<and> map_of (users db0) (canonical env0 t1) = None
   \<and> ensureUserExists env0 db0 (Some t1) = Inl (Status400 ''assignedUser not found'')
   \<and> isValidObjectId env0 ''64B000000000000000000001''
   \<and> map_of (users db0) (canonical env0 ''64B000000000000000000001'') = Some alice
   \<and> ensureUserExists env0 db0 (Some ''64B000000000000000000001'') =
        Inr (Some (canonical env0 ''64B000000000000000000001'', user_name alice))
   \<and> canonical env0 ''64B000000000000000000001'' = u1
   \<and> b_assignedUser (to_alice\<lparr>b_assignedUser := Some t1\<rparr>) = Some t1 \<and> trim t1 = t1
   \<and> tasks_post env0 t2 7 (to_alice\<lparr>b_assignedUser := Some t1\<rparr>) db0 =
        (Json 400 ''assignedUser not found'' EmptyObject, db0)
   \<and> b_assignedUser blank_assignee = Some ''   '' \<and> trim ''   '' = []
   \<and> taskSchemaValid env0 nobodys_report \<and> map_of (tasks db0) t2 = None
   \<and> tasks_post env0 t2 7 blank_assignee db0 =
        (Json 201 ''Task created successfully'' (TaskDoc t2 nobodys_report),
         db0\<lparr>tasks := tasks db0 @ [(t2, nobodys_report)]\<rparr>)
   \<and> db0\<lparr>tasks := tasks db0 @ [(t2, nobodys_report)]\<rparr> = db_nobodys
   \<and> tasks_post env0 t2 7 to_alice db0 =
        (Json 201 ''Task created successfully'' (TaskDoc t2 (report_alice\<lparr>task_dateCreated := 7\<rparr>)), db_created)
   \<and> b_assignedUserName to_alice = Some ''Mallory''
   \<and> assignedUserName (report_alice\<lparr>task_dateCreated := 7\<rparr>) = user_name alice"
proof -
  note T = C6_reference_validation[where e = env0 and d = db0 and a = None
        and ?s1.0 = "''not-an-id''" and ?s2.0 = t1
        and ?s3.0 = "''64B000000000000000000001''" and u = alice
        and body = "to_alice\<lparr>b_assignedUser := Some t1\<rparr>" and ?s4.0 = t1
        and msg = "''assignedUser not found''" and newId = t2 and now = 7 and i = t1
        and ?body3.0 = blank_assignee and ?t3.0 = nobodys_report and ?s5.0 = "''   ''" and ?s6.0 = t1
        and ?body1.0 = to_alice and ?body2.0 = to_alice and x = None
        and ?m1.0 = "''Task created successfully''" and ?k1.0 = t2
        and ?r1.0 = "report_alice\<lparr>task_dateCreated := 7\<rparr>" and ?d1.0 = db_created]
  note T1 = T[THEN conjunct1]
  note T2 = T[THEN conjunct2, THEN conjunct1]
  note T3 = T[THEN conjunct2, THEN conjunct2, THEN conjunct1]
  note T4 = T[THEN conjunct2, THEN conjunct2, THEN conjunct2, THEN conjunct1]
  note T5 = T[THEN conjunct2, THEN conjunct2, THEN conjunct2, THEN conjunct2, THEN conjunct1]
  note T6 = T[THEN conjunct2, THEN conjunct2, THEN conjunct2, THEN conjunct2, THEN conjunct2,
              THEN conjunct1]
  note T7 = T[THEN conjunct2, THEN conjunct2, THEN conjunct2, THEN conjunct2, THEN conjunct2,
              THEN conjunct2, THEN conjunct1]
  note T8 = T[THEN conjunct2, THEN conjunct2, THEN conjunct2, THEN conjunct2, THEN conjunct2,
              THEN conjunct2, THEN conjunct2, THEN conjunct1]
  have a1: "ensureUserExists env0 db0 None = Inr None"
    using T1 by simp
  have h2: "''not-an-id'' \<noteq> []" "\<not> isValidObjectId env0 ''not-an-id''"
    by (simp_all add: env0_def hexObjectId_def)
  have a2: "ensureUserExists env0 db0 (Some ''not-an-id'') =
              Inl (Status400 ''assignedUser must be a valid ObjectId'')"
    by (rule T2[THEN mp, OF conjI[OF h2(1) h2(2)]])
  have h3: "t1 \<noteq> []" "isValidObjectId env0 t1" "rejects env0 (TasksJs 34) = None"
    "map_of (users db0) (canonical env0 t1) = None"
    by (simp_all add: ex_defs)
  have a3: "ensureUserExists env0 db0 (Some t1) = Inl (Status400 ''assignedUser not found'')"
    by (rule T3[THEN mp, OF conjI[OF h3(1) conjI[OF h3(2) conjI[OF h3(3) h3(4)]]]])
  have h4: "''64B000000000000000000001'' \<noteq> []" "isValidObjectId env0 ''64B000000000000000000001''"
    "map_of (users db0) (canonical env0 ''64B000000000000000000001'') = Some alice"
    "canonical env0 ''64B000000000000000000001'' = u1"
    by (simp_all add: ex_defs)
  have a4: "ensureUserExists env0 db0 (Some ''64B000000000000000000001'') =
              Inr (Some (canonical env0 ''64B000000000000000000001'', user_name alice))"
    by (rule T4[THEN mp, OF conjI[OF h4(1) conjI[OF h4(2) conjI[OF h3(3) h4(3)]]]])
  have h8: "hd t1 \<notin> hd ` set whiteSpaces" "last t1 \<notin> last ` set whiteSpaces"
    by (simp_all add: t1_def whiteSpaces_def)
  have a8: "trim t1 = t1"
    by (rule T8[THEN mp, OF conjI[OF h3(1) conjI[OF h8(1) h8(2)]]])
  have h5: "b_assignedUser (to_alice\<lparr>b_assignedUser := Some t1\<rparr>) = Some t1" "trim t1 \<noteq> []"
    using a8 h3(1) by simp_all
  have a5: "tasks_post env0 t2 7 (to_alice\<lparr>b_assignedUser := Some t1\<rparr>) db0 =
        (Json 400 ''assignedUser not found'' EmptyObject, db0)"
    by (rule T5[THEN mp, OF conjI[OF h5(1) conjI[OF h5(2) a3]], THEN conjunct1])
  have h7: "set ''   '' \<subseteq> {CHR 0x09, CHR 0x0A, CHR 0x0B, CHR 0x0C, CHR 0x0D, CHR 0x20}"
    by simp
  have a7: "trim ''   '' = []"
    by (rule T7[THEN mp, OF h7])
  have h6: "b_assignedUser blank_assignee = Some ''   ''"
    "nobodys_report =
      \<lparr>task_name = b_name blank_assignee, description = or_empty (b_description blank_assignee),
       deadline = b_deadline blank_assignee, completed = truthy_bool (b_completed blank_assignee),
       assignedUser = [], assignedUserName = ''unassigned'', task_dateCreated = 7\<rparr>"
    "taskSchemaValid env0 nobodys_report" "map_of (tasks db0) t2 = None"
    "rejects env0 (TasksJs 112) = None"
    by (simp_all add: ex_defs or_empty_def truthy_bool_def truthy_str_def)
  have a6: "tasks_post env0 t2 7 blank_assignee db0 =
        (Json 201 ''Task created successfully'' (TaskDoc t2 nobodys_report),
         db0\<lparr>tasks := tasks db0 @ [(t2, nobodys_report)]\<rparr>)"
  proof -
    have "b_assignedUser blank_assignee = None \<or>
          (\<exists>s. b_assignedUser blank_assignee = Some s \<and> trim s = [])"
      by (rule disjI2, rule exI[of _ "''   ''"], rule conjI[OF h6(1) a7])
    from T6[THEN mp, OF this, THEN conjunct2, THEN conjunct2, THEN conjunct2, THEN mp,
            OF conjI[OF h6(2) conjI[OF h6(3) conjI[OF h6(4) h6(5)]]]]
    show ?thesis .
  qed
  have e6: "db0\<lparr>tasks := tasks db0 @ [(t2, nobodys_report)]\<rparr> = db_nobodys"
    by (simp add: db0_def db_nobodys_def)
  have run: "tasks_post env0 t2 7 to_alice db0 =
        (Json 201 ''Task created successfully'' (TaskDoc t2 (report_alice\<lparr>task_dateCreated := 7\<rparr>)), db_created)"
    by (simp add: route_defs ex_defs)
  have nm: "b_assignedUserName to_alice = Some ''Mallory''"
    "assignedUserName (report_alice\<lparr>task_dateCreated := 7\<rparr>) = user_name alice"
    by (simp_all add: ex_defs)
  from a1 h2 a2 h3 a3 h4(2,3) a4 h4(4) h5(1) a8 a5 h6(1) a7 h6(3,4) a6 e6 run nm
  show ?thesis by (intro conjI)
qed

text \<open>
  The claim as the specification states it fails at the routes: three blanks are a
  non-empty identifier that is not a valid ObjectId, for which \<open>ensureUserExists\<close> would
  fail, but POST /api/tasks does not call it and creates the task, unassigned, with
  status 201.
\<close>

theorem C6_blank_identifier_counterexample:
  "b_assignedUser blank_assignee = Some ''   ''
   \<and> ''   '' \<noteq> []
   \<and> \<not> isValidObjectId env0 ''   ''
   \<and> ensureUserExists env0 db0 (Some ''   '') = Inl (Status400 ''assignedUser must be a valid ObjectId'')
   \<and> tasks_post env0 t2 7 blank_assignee db0 =
        (Json 201 ''Task created successfully'' (TaskDoc t2 nobodys_report), db_nobodys)
   \<and> assignedUser nobodys_report = [] \<and> assignedUserName nobodys_report = ''unassigned''"
  by (simp add: route_defs ex_defs)

section \<open>Listing\<close>

lemma length_limited: "length (limited (Some n) xs) \<le> nat n"
  by (simp add: limited_def)

text \<open>
  Claim C9. When the request has no \<open>limit\<close> parameter, GET /api/tasks asks the store for
  at most 100 documents and answers with at most 100, and GET /api/users sets no limit: it
  answers with all the matching documents, in the order asked for, after the skip.
\<close>

theorem C9_default_limits:
  assumes "q_limit q = None"
  shows "(\<forall>fq. tasks_query J q = Inr (Find fq) \<longrightarrow> find_limit fq = Some 100)
       \<and> (\<forall>s m docs. tasks_get e J E q d = Json s m (TaskDocs docs) \<longrightarrow> length docs \<le> 100)
       \<and> (\<forall>fq. users_query J q = Inr (Find fq) \<longrightarrow> find_limit fq = None)
       \<and> (\<forall>s m docs. users_get e J E' q d = Json s m (UserDocs docs) \<longrightarrow>
            (\<exists>fq. users_query J q = Inr (Find fq) \<and>
                  docs = (case find_skip fq of
                            None \<Rightarrow> ordered E' fq (users d)
                          | Some n \<Rightarrow> drop (nat n) (ordered E' fq (users d)))))"
proof -
  have tl: "tasks_limit (q_limit q) = Some 100" and ul: "users_limit (q_limit q) = None"
    using assms by (simp_all add: tasks_limit_def users_limit_def truthy_str_def)
  have 1: "\<forall>fq. tasks_query J q = Inr (Find fq) \<longrightarrow> find_limit fq = Some 100"
    using tl by (auto simp: tasks_query_def list_plan_def split: sum.splits if_splits)
  have 3: "\<forall>fq. users_query J q = Inr (Find fq) \<longrightarrow> find_limit fq = None"
    using ul by (auto simp: users_query_def list_plan_def split: sum.splits if_splits)
  have 2: "\<forall>s m docs. tasks_get e J E q d = Json s m (TaskDocs docs) \<longrightarrow> length docs \<le> 100"
  proof (intro allI impI)
    fix s m docs
    assume g: "tasks_get e J E q d = Json s m (TaskDocs docs)"
    then obtain fq where fq: "tasks_query J q = Inr (Find fq)"
      and ex: "exec_find E fq (tasks d) = Inr docs"
      by (auto simp: tasks_get_def run_read_def split: sum.splits plan.splits option.splits)
    from 1 fq have "find_limit fq = Some 100" by simp
    with ex have "\<exists>xs. docs = limited (Some 100) xs"
      by (auto simp: exec_find_def split: option.splits if_splits)
    then show "length docs \<le> 100" using length_limited[of 100] by auto
  qed
  have 4: "\<forall>s m docs. users_get e J E' q d = Json s m (UserDocs docs) \<longrightarrow>
            (\<exists>fq. users_query J q = Inr (Find fq) \<and>
                  docs = (case find_skip fq of
                            None \<Rightarrow> ordered E' fq (users d)
                          | Some n \<Rightarrow> drop (nat n) (ordered E' fq (users d))))"
  proof (intro allI impI)
    fix s m docs
    assume g: "users_get e J E' q d = Json s m (UserDocs docs)"
    then obtain fq where fq: "users_query J q = Inr (Find fq)"
      and ex: "exec_find E' fq (users d) = Inr docs"
      by (auto simp: users_get_def run_read_def split: sum.splits plan.splits option.splits prod.splits)
    from 3 fq have "find_limit fq = None" by simp
    with ex have "docs = (case find_skip fq of
                            None \<Rightarrow> ordered E' fq (users d)
                          | Some n \<Rightarrow> drop (nat n) (ordered E' fq (users d)))"
      by (auto simp: exec_find_def limited_def split: option.splits if_splits)
    with fq show "\<exists>fq. users_query J q = Inr (Find fq) \<and>
                  docs = (case find_skip fq of
                            None \<Rightarrow> ordered E' fq (users d)
                          | Some n \<Rightarrow> drop (nat n) (ordered E' fq (users d)))"
      by blast
  qed
  from 1 2 3 4 show ?thesis by blast
qed

lemmas query_defs = tasks_get_def users_get_def tasks_query_def users_query_def list_plan_def
  parseJSON_def or_emptyObj_def if_truthy_def skip_param_def tasks_limit_def users_limit_def
  truthy_str_def or_empty_def parseInt_def dropWhiteSpace.simps wsLength_def whiteSpaces_def digitVal_def exec_find_def limited_def
  ordered_def matching_def run_read_def message_or_def

theorem C9_default_limits_witness:
  "q_limit no_params = None
   \<and> tasks_query json0 no_params =
       Inr (Find \<lparr>find_filter = ''{}'', find_sort = None, find_select = None, find_skip = None,
                  find_limit = Some 100\<rparr>)
   \<and> tasks_get env0 json0 task_engine0 no_params db0 = Json 200 ''OK'' (TaskDocs (tasks db0))
   \<and> length (tasks db0) \<le> 100
   \<and> users_query json0 no_params =
       Inr (Find \<lparr>find_filter = ''{}'', find_sort = None, find_select = None, find_skip = None,
                  find_limit = None\<rparr>)
   \<and> users_get env0 json0 user_engine0 no_params db0 = Json 200 ''OK'' (UserDocs (users db0))"
proof -
  have h: "q_limit no_params = None" by (simp add: ex_defs)
  from C9_default_limits[OF h, of json0 env0 task_engine0 db0 user_engine0] h show ?thesis
    by (simp add: query_defs ex_defs)
qed

section \<open>Where the routes part from the specification\<close>

text \<open>
  Claim C1 says that after every mutation that succeeded, a task is assigned to a user and
  not completed exactly when that user's pending tasks contain it. PUT /api/users/:id
  breaks this: on a store that satisfies the invariant, Alice replaces her user with a list
  of pending tasks that names Bob's pending task \<open>t1\<close>. The route answers 200 and assigns
  the task to Alice, and Bob's pending tasks still contain it.
\<close>

theorem C1_user_put_breaks_invariant:
  "invariant db0
   \<and> user_put env0 u1 claim_t1 db0 =
       (Json 200 ''User updated successfully'' (UserDoc u1 (alice\<lparr>pendingTasks := [t1]\<rparr>)), db_claimed)
   \<and> map_of (tasks db_claimed) t1 = Some (report\<lparr>assignedUser := u1, assignedUserName := ''Alice''\<rparr>)
   \<and> map_of (users db_claimed) u2 = Some bob
   \<and> t1 \<in> set (pendingTasks bob)
   \<and> \<not> invariant db_claimed"
  by (simp add: route_defs ex_defs invariant_def linked_def)

theorem C1_user_put_breaks_invariant_witness:
  "invariant db0 \<and> fst (user_put env0 u1 claim_t1 db0) =
     Json 200 ''User updated successfully'' (UserDoc u1 (alice\<lparr>pendingTasks := [t1]\<rparr>))
   \<and> \<not> invariant (snd (user_put env0 u1 claim_t1 db0))"
  using C1_user_put_breaks_invariant by simp

text \<open>
  The other four mutations keep the invariant on a well formed store; creating a task needs
  the new identifier to be unreferenced.
\<close>

lemma put_pending:
  assumes "map_of
       (let us1 = (if p \<noteq> [] \<and> p \<noteq> n
                   then AList.map_entry p (pull_pending i) us else us);
            us2 = (if n \<noteq> [] \<and> \<not> c
                   then AList.map_entry n (add_pending i) us1 else us1)
        in if p = n \<and> n \<noteq> []
           then (if \<not> c0 \<and> c then AList.map_entry n (pull_pending i) us2
                 else if c0 \<and> \<not> c then AList.map_entry n (add_pending i) us2
                 else us2)
           else us2) uid = Some u'"
  shows "\<exists>u. map_of us uid = Some u \<and>
           set (pendingTasks u') =
             (if uid = n \<and> n \<noteq> [] \<and> \<not> c then insert i (set (pendingTasks u))
              else if uid = p \<and> p \<noteq> [] \<and> (p \<noteq> n \<or> (\<not> c0 \<and> c)) then set (pendingTasks u) - {i}
              else set (pendingTasks u))"
  using assms
  by (cases "p = n"; cases c0; cases c; cases "n = []"; cases "p = []"; cases "uid = n"; cases "uid = p";
      auto simp: Let_def map_of_map_entry pull_pending_def add_pending_def set_pull set_addToSet
           split: option.splits)


lemma invariant_map_of:
  assumes "distinct (map fst (users d))" and "distinct (map fst (tasks d))"
  shows "invariant d \<longleftrightarrow>
     (\<forall>tid t uid u. map_of (tasks d) tid = Some t \<longrightarrow> map_of (users d) uid = Some u \<longrightarrow>
        linked tid t uid u)"
  using assms by (auto simp: invariant_def list_all_iff)

lemma map_of_user_keys:
  "map_of us uid = Some u \<Longrightarrow> uid \<in> set (map fst us)"
  by (auto dest: map_of_SomeD intro: rev_image_eqI)

lemma invariant_old:
  assumes "well_formed d" "invariant d" "map_of (tasks d) tid = Some t" "map_of (users d) uid = Some u"
  shows "linked tid t uid u" "uid \<noteq> []"
proof -
  from assms(1) have du: "distinct (map fst (users d))" and dt: "distinct (map fst (tasks d))"
    and ne: "[] \<notin> set (map fst (users d))"
    by (simp_all add: well_formed_def)
  from assms(2) assms(3) assms(4) show "linked tid t uid u"
    unfolding invariant_map_of[OF du dt] by simp
  from map_of_user_keys[OF assms(4)] ne show "uid \<noteq> []" by blast
qed


lemma task_put_preserves:
  assumes wf: "well_formed d" and inv: "invariant d"
      and ok: "task_put e i body d = (Json 200 m dat, d')"
  shows "well_formed d' \<and> invariant d'"
proof -
  from task_put_200[OF ok] obtain k t where
    txn: "task_put_txn e i body d = Inr (Updated k t, d')" by blast
  from task_put_txn_found[OF txn] obtain t0 where t0: "map_of (tasks d) k = Some t0" ..
  from task_put_txn_eqs[OF txn t0] obtain nxt nm where
    t: "t = t0\<lparr>task_name := b_name body, description := or_empty (b_description body),
            deadline := b_deadline body, completed := truthy_bool (b_completed body),
            assignedUser := nxt, assignedUserName := nm\<rparr>" and
    ts: "tasks d' = AList.map_entry k (\<lambda>_. t) (tasks d)" and
    us: "users d' =
       (let us1 = (if assignedUser t0 \<noteq> [] \<and> assignedUser t0 \<noteq> nxt
                   then AList.map_entry (assignedUser t0) (pull_pending k) (users d) else users d);
            us2 = (if nxt \<noteq> [] \<and> \<not> completed t
                   then AList.map_entry nxt (add_pending k) us1 else us1)
        in if assignedUser t0 = nxt \<and> nxt \<noteq> []
           then (if \<not> completed t0 \<and> completed t then AList.map_entry nxt (pull_pending k) us2
                 else if completed t0 \<and> \<not> completed t then AList.map_entry nxt (add_pending k) us2
                 else us2)
           else us2)"
    by blast
  have nx: "assignedUser t = nxt" by (simp add: t)
  have keys: "map fst (users d') = map fst (users d)" "map fst (tasks d') = map fst (tasks d)"
    unfolding us ts Let_def by (simp_all add: map_fst_map_entry)
  then have wf': "well_formed d'" using wf by (simp add: well_formed_def)
  have "linked tid t' uid u'"
    if a: "map_of (tasks d') tid = Some t'" and b: "map_of (users d') uid = Some u'" for tid t' uid u'
  proof -
    from put_pending[OF b[unfolded us]] obtain u where u: "map_of (users d) uid = Some u" and
      p: "set (pendingTasks u') =
             (if uid = nxt \<and> nxt \<noteq> [] \<and> \<not> completed t then insert k (set (pendingTasks u))
              else if uid = assignedUser t0 \<and> assignedUser t0 \<noteq> [] \<and>
                      (assignedUser t0 \<noteq> nxt \<or> (\<not> completed t0 \<and> completed t))
                   then set (pendingTasks u) - {k}
              else set (pendingTasks u))"
      by blast
    have uid: "uid \<noteq> []" by (rule invariant_old(2)[OF wf inv t0 u])
    show ?thesis
    proof (cases "tid = k")
      case False
      with a have "map_of (tasks d) tid = Some t'" by (simp add: ts map_of_map_entry)
      from invariant_old(1)[OF wf inv this u] have "linked tid t' uid u" .
      moreover have "tid \<in> set (pendingTasks u') \<longleftrightarrow> tid \<in> set (pendingTasks u)"
        using False unfolding p by auto
      ultimately show ?thesis by (simp add: linked_def)
    next
      case True
      with a t0 have t': "t' = t" by (simp add: ts map_of_map_entry)
      from invariant_old(1)[OF wf inv t0 u]
      have o: "(assignedUser t0 = uid \<and> \<not> completed t0) = (k \<in> set (pendingTasks u))"
        by (simp add: linked_def)
      show ?thesis
        unfolding True t' linked_def nx p using o uid by auto
    qed
  qed
  then have "invariant d'"
    using wf' by (simp add: invariant_map_of well_formed_def)
  with wf' show ?thesis ..
qed


lemma user_id_nonempty:
  assumes "well_formed d" "map_of (users d) uid = Some u"
  shows "uid \<noteq> []"
proof -
  from assms(1) have "[] \<notin> set (map fst (users d))" by (simp add: well_formed_def)
  with map_of_user_keys[OF assms(2)] show ?thesis by blast
qed

lemma unreferenced_map_of:
  "unreferenced i d \<Longrightarrow> map_of (users d) uid = Some u \<Longrightarrow> i \<notin> set (pendingTasks u)"
  by (auto simp: unreferenced_def list_all_iff dest!: map_of_SomeD)

lemma tasks_post_preserves:
  assumes wf: "well_formed d" and inv: "invariant d" and fresh: "unreferenced newId d"
      and ok: "tasks_post e newId now body d = (Json 201 m dat, d')"
  shows "well_formed d' \<and> invariant d'"
proof -
  from tasks_post_201[OF ok] obtain au t where
    au: "assignedUser t = au" and
    nw: "map_of (tasks d) newId = None" and
    ts: "tasks d' = tasks d @ [(newId, t)]" and
    us: "users d' = (if au \<noteq> [] \<and> \<not> completed t
                       then AList.map_entry au (add_pending newId) (users d) else users d)"
    by auto
  from nw have nk: "newId \<notin> set (map fst (tasks d))"
    by (simp add: map_of_eq_None_iff)
  have keys: "map fst (users d') = map fst (users d)"
    unfolding us by (simp add: map_fst_map_entry)
  have wf': "well_formed d'"
    using wf nk by (simp add: well_formed_def keys ts)
  have "linked tid t' uid u'"
    if a: "map_of (tasks d') tid = Some t'" and b: "map_of (users d') uid = Some u'" for tid t' uid u'
  proof -
    from b obtain u where u: "map_of (users d) uid = Some u" and
      p: "set (pendingTasks u') =
            (if uid = au \<and> au \<noteq> [] \<and> \<not> completed t then insert newId (set (pendingTasks u))
             else set (pendingTasks u))"
      unfolding us
      by (auto simp: map_of_map_entry add_pending_def set_addToSet split: if_splits option.splits)
    have fr: "newId \<notin> set (pendingTasks u)" by (rule unreferenced_map_of[OF fresh u])
    have someone: "\<exists>t0. map_of (tasks d) tid = Some t0" if "tid \<noteq> newId"
      using a that by (auto simp: ts map_add_def split: option.splits)
    have uid: "uid \<noteq> []" by (rule user_id_nonempty[OF wf u])
    show ?thesis
    proof (cases "tid = newId")
      case False
      with a have "map_of (tasks d) tid = Some t'"
        by (auto simp: ts map_add_def split: option.splits)
      from invariant_old(1)[OF wf inv this u] have "linked tid t' uid u" .
      moreover have "tid \<in> set (pendingTasks u') \<longleftrightarrow> tid \<in> set (pendingTasks u)"
        using False unfolding p by auto
      ultimately show ?thesis by (simp add: linked_def)
    next
      case True
      with a nw have t': "t' = t" by (simp add: ts map_add_def)
      show ?thesis
        unfolding True t' linked_def au p using fr uid by auto
    qed
  qed
  then have "invariant d'"
    using wf' by (simp add: invariant_map_of well_formed_def)
  with wf' show ?thesis ..
qed

lemma task_delete_found:
  assumes "task_delete e j d = (Send 204, d')"
  shows "\<exists>t. map_of (tasks d) (canonical e j) = Some t"
  using assms
  by (auto simp: task_delete_def withTransaction_def task_delete_txn_def bind_err_Inr findById_Inr
           split: sum.splits option.splits prod.splits err.splits)

lemma task_delete_preserves:
  assumes wf: "well_formed d" and inv: "invariant d"
      and ok: "task_delete e j d = (Send 204, d')"
  shows "well_formed d' \<and> invariant d'"
proof -
  from task_delete_found[OF ok] obtain t where t: "map_of (tasks d) (canonical e j) = Some t" ..
  from task_delete_204[OF ok t] have
    ts: "tasks d' = AList.delete_aux (canonical e j) (tasks d)" and
    us: "users d' = (if assignedUser t \<noteq> [] \<and> \<not> completed t
                     then AList.map_entry (assignedUser t) (pull_pending (canonical e j)) (users d) else users d)"
    by simp_all
  from wf have dt: "distinct (map fst (tasks d))" by (simp add: well_formed_def)
  have keys: "map fst (users d') = map fst (users d)"
    unfolding us by (simp add: map_fst_map_entry)
  have wf': "well_formed d'"
    using wf by (simp add: well_formed_def keys ts)
  have "linked tid t' uid u'"
    if a: "map_of (tasks d') tid = Some t'" and b: "map_of (users d') uid = Some u'" for tid t' uid u'
  proof -
    from a have ne: "tid \<noteq> canonical e j" and a': "map_of (tasks d) tid = Some t'"
      unfolding ts by (auto simp: map_of_delete_aux[OF dt] split: if_splits)
    from b obtain u where u: "map_of (users d) uid = Some u" and
      p: "set (pendingTasks u') - {canonical e j} = set (pendingTasks u) - {canonical e j}"
      unfolding us
      by (auto simp: map_of_map_entry pull_pending_def set_pull split: if_splits option.splits)
    from invariant_old(1)[OF wf inv a' u] have "linked tid t' uid u" .
    moreover have "tid \<in> set (pendingTasks u') \<longleftrightarrow> tid \<in> set (pendingTasks u)"
      using ne p by blast
    ultimately show ?thesis by (simp add: linked_def)
  qed
  then have "invariant d'"
    using wf' by (simp add: invariant_map_of well_formed_def)
  with wf' show ?thesis ..
qed

lemma user_delete_preserves:
  assumes wf: "well_formed d" and inv: "invariant d"
      and ok: "user_delete e i d = (Json 200 m dat, d')"
  shows "well_formed d' \<and> invariant d'"
proof -
  from user_delete_200[OF ok] have
    ts: "tasks d' = AList.map_ran (\<lambda>k t. if assignedUser t = canonical e i then unassign t else t) (tasks d)" and
    us: "users d' = AList.delete_aux (canonical e i) (users d)"
    by simp_all
  from wf have du: "distinct (map fst (users d))" by (simp add: well_formed_def)
  have sub: "set (map fst (users d')) \<subseteq> set (map fst (users d))"
    unfolding us using dom_delete_aux[OF du, of "canonical e i"] by auto
  have wf': "well_formed d'"
    using wf sub by (auto simp: well_formed_def ts us distinct_map_ran)
  have "linked tid t' uid u"
    if a: "map_of (tasks d') tid = Some t'" and b: "map_of (users d') uid = Some u" for tid t' uid u
  proof -
    from b have ne: "uid \<noteq> canonical e i" and u: "map_of (users d) uid = Some u"
      unfolding us by (auto simp: map_of_delete_aux[OF du] split: if_splits)
    from a obtain t where t: "map_of (tasks d) tid = Some t"
      and t': "t' = (if assignedUser t = canonical e i then unassign t else t)"
      unfolding ts by (auto simp: map_ran_conv)
    from invariant_old[OF wf inv t u] have "linked tid t uid u" "uid \<noteq> []" .
    then show ?thesis
      using ne by (auto simp: t' linked_def unassign_def)
  qed
  then have "invariant d'"
    using wf' by (simp add: invariant_map_of well_formed_def)
  with wf' show ?thesis ..
qed

text \<open>
  Claim C2 says that every mutation across the two collections commits all of its writes or
  none. PUT /api/users/:id runs without a transaction: when the store rejects the
  \<open>updateMany\<close> on the tasks, the route answers 500 and the user it saved before stays
  saved, with \<open>t1\<close> among its pending tasks, while the task still belongs to Bob.
\<close>

theorem C2_user_put_not_atomic:
  "user_put env_down u1 claim_t1 db0 =
     (Json 500 ''Error updating user'' (ErrObject (MongoError 89 ''network timeout'')), db_half)
   \<and> users db_half \<noteq> users db0
   \<and> tasks db_half = tasks db0
   \<and> db_half \<noteq> db0"
  by (simp add: route_defs ex_defs)

theorem C2_user_put_not_atomic_witness:
  "fst (user_put env_down u1 claim_t1 db0) =
     Json 500 ''Error updating user'' (ErrObject (MongoError 89 ''network timeout''))
   \<and> snd (user_put env_down u1 claim_t1 db0) \<noteq> db0"
  using C2_user_put_not_atomic by simp

text \<open>
  The routes of tasks.js run in a transaction: a request that does not succeed leaves the
  store as it was.
\<close>

lemma tasks_post_atomic:
  "tasks_post e newId now body d = (r, d') \<Longrightarrow> (\<exists>m dat. r = Json 201 m dat) \<or> d' = d"
  by (auto simp: tasks_post_def withTransaction_def split: sum.splits prod.splits err.splits)

lemma task_put_atomic:
  "task_put e i body d = (r, d') \<Longrightarrow> (\<exists>m dat. r = Json 200 m dat) \<or> d' = d"
  by (auto simp: task_put_def withTransaction_def task_put_txn_def bind_err_Inr Let_def
           split: sum.splits prod.splits err.splits put_outcome.splits option.splits)

lemma task_delete_atomic:
  "task_delete e i d = (r, d') \<Longrightarrow> r = Send 204 \<or> d' = d"
  by (auto simp: task_delete_def withTransaction_def task_delete_txn_def bind_err_Inr
           split: sum.splits prod.splits err.splits option.splits)

text \<open>
  Claim C7 says that a negative or non-numeric \<open>skip\<close> or \<open>limit\<close> is treated as if the
  parameter were absent, so that an invalid limit on /tasks gives the default of 100 and a
  negative skip skips nothing, without an error. In GET /api/tasks an absent limit gives
  100, the limits \<open>abc\<close> and \<open>-3\<close> give no limit at all, an absent skip gives no skip and
  the skip \<open>-5\<close> is passed to the store as it is, whose refusal the route answers with 500.
\<close>

theorem C7_invalid_skip_limit:
  "tasks_limit None = Some 100
   \<and> tasks_limit (Some ''abc'') = None
   \<and> tasks_limit (Some ''-3'') = None
   \<and> skip_param None = None
   \<and> skip_param (Some ''-5'') = Some (- 5)
   \<and> tasks_get env0 json0 task_engine0 (no_params\<lparr>q_skip := Some ''-5''\<rparr>) db0 =
       Json 500 ''Error getting tasks'' EmptyObject
   \<and> tasks_get env0 json0 task_engine0 no_params db0 = Json 200 ''OK'' (TaskDocs (tasks db0))"
  by (simp add: query_defs ex_defs)

text \<open>
  DELETE /api/users/:id has no transaction either: when the store rejects the
  \<open>deleteOne\<close>, the tasks of the user stay unassigned and the user stays.
\<close>

lemma user_delete_not_atomic:
  assumes "isValidObjectId e i" and "map_of (users d) (canonical e i) = Some u"
      and "rejects e (UsersJs 169) = None" and "rejects e (UsersJs 175) = None"
      and "rejects e (UsersJs 180) = Some (c, m)"
  shows "user_delete e i d =
           (Json 500 ''Error deleting user'' (ErrObject (MongoError c m)),
            d\<lparr>tasks := AList.map_ran (\<lambda>k t. if assignedUser t = canonical e i then unassign t else t)
                          (tasks d)\<rparr>)"
  using assms
  by (simp add: user_delete_def findById_def awaited_def updateMany_tasks_def selected_def
        deleteOne_user_def)

text \<open>
  What the guards of the two parameters do: a skip that is not a number is ignored, a
  negative one is kept; a limit that is not a positive number is ignored, which on
  /api/users is the same as no limit and on /api/tasks is not the default.
\<close>

lemma skip_param_non_numeric: "parseInt s = None \<Longrightarrow> skip_param (Some s) = skip_param None"
  by (simp add: skip_param_def truthy_str_def or_empty_def)

lemma users_limit_invalid:
  assumes "parseInt s = None \<or> (\<exists>n. parseInt s = Some n \<and> n \<le> 0)"
  shows "users_limit (Some s) = users_limit None"
  using assms by (auto simp: users_limit_def truthy_str_def or_empty_def)

lemma tasks_limit_invalid:
  assumes "s \<noteq> []" and "parseInt s = None \<or> (\<exists>n. parseInt s = Some n \<and> n \<le> 0)"
  shows "tasks_limit (Some s) = None"
  using assms by (auto simp: tasks_limit_def truthy_str_def or_empty_def)

lemma skip_param_negative:
  assumes "parseInt s = Some n" and "n < 0"
  shows "skip_param (Some s) = Some n"
  using assms
  by (auto simp: skip_param_def truthy_str_def or_empty_def parseInt_def Let_def dropWhiteSpace_Nil
           split: if_splits)

text \<open>
  Claim C8 says that every response, those of DELETE too, has a body with a message and
  data. DELETE /api/tasks/:id of a task that exists answers 204 with \<open>send()\<close>: no body.
\<close>

theorem C8_task_delete_no_body:
  "task_delete env0 t1 db0 = (Send 204, db_without_t1)"
  by (simp add: route_defs ex_defs)

text \<open>Every other response of every route is an envelope with a message and data.\<close>

lemma tasks_post_envelope: "\<exists>s m dat. fst (tasks_post e newId now body d) = Json s m dat"
  by (auto simp: tasks_post_def split: sum.splits prod.splits err.splits)

lemma task_put_envelope: "\<exists>s m dat. fst (task_put e i body d) = Json s m dat"
  by (auto simp: task_put_def split: sum.splits prod.splits err.splits put_outcome.splits)

lemma task_delete_response:
  "fst (task_delete e i d) = Send 204 \<or> (\<exists>s m dat. fst (task_delete e i d) = Json s m dat)"
  by (auto simp: task_delete_def withTransaction_def task_delete_txn_def bind_err_Inr
           split: sum.splits prod.splits err.splits option.splits)

lemma users_post_catch_envelope: "\<exists>s m dat. users_post_catch x = Json s m dat"
  by (cases x) auto

lemma user_put_catch_envelope: "\<exists>s m dat. user_put_catch x = Json s m dat"
  by (cases x) auto

lemma user_delete_catch_envelope: "\<exists>s m dat. user_delete_catch x = Json s m dat"
  by (cases x) auto

lemma users_post_envelope: "\<exists>s m dat. fst (users_post e newId now body d) = Json s m dat"
  using users_post_catch_envelope
  by (auto simp: users_post_def Let_def split: sum.splits)

lemma user_put_envelope: "\<exists>s m dat. fst (user_put e i body d) = Json s m dat"
  using user_put_catch_envelope
  by (auto simp: user_put_def Let_def split: sum.splits option.splits)

lemma user_delete_envelope: "\<exists>s m dat. fst (user_delete e i d) = Json s m dat"
  using user_delete_catch_envelope
  by (auto simp: user_delete_def split: sum.splits option.splits)

lemma tasks_get_envelope: "\<exists>s m dat. tasks_get e J E q d = Json s m dat"
  by (auto simp: tasks_get_def split: sum.splits plan.splits)

lemma users_get_envelope: "\<exists>s m dat. users_get e J E q d = Json s m dat"
  by (auto simp: users_get_def split: sum.splits plan.splits prod.splits)

lemma task_get_envelope: "\<exists>s m dat. task_get e J i sel d = Json s m dat"
  by (auto simp: task_get_def split: sum.splits err.splits option.splits)

lemma user_get_envelope: "\<exists>s m dat. user_get e J i sel d = Json s m dat"
  by (auto simp: user_get_def split: sum.splits err.splits option.splits)

end
